theory Spec2Isabelle
  imports Complex_Main
begin

section \<open>Numbers\<close>

text \<open>
  The engine computes with JavaScript numbers, which are IEEE 754 doubles: every
  arithmetic operation yields the exact result of the operation on its operands,
  rounded to a double. A number is embedded as a \<^typ>\<open>real\<close>, and the rounding is a
  parameter \<open>r\<close> of every function of the model that computes: \<open>x + y\<close> of the source
  is \<open>fadd r x y\<close>, and so on. A numeric literal of the source that is not a small
  integer is rounded as well (\<open>r 0.001\<close>), and \<open>Math.pow\<close>, \<open>Math.cos\<close> and
  \<open>Math.sin\<close> are taken to round their exact result in the same way. Comparisons,
  \<open>Math.max\<close>, \<open>Math.min\<close> and unary minus are exact. The values NaN and
  +/-Infinity are not represented: where the source can produce one of them (a
  division by zero) the model says so instead of using the value HOL gives to
  \<open>x / 0\<close>. Counters that the source only ever sets to 0 and increments are
  \<^typ>\<open>nat\<close>.
\<close>

type_synonym rounding = "real \<Rightarrow> real"

definition fadd :: "rounding \<Rightarrow> real \<Rightarrow> real \<Rightarrow> real" where
  "fadd r x y = r (x + y)"

definition fsub :: "rounding \<Rightarrow> real \<Rightarrow> real \<Rightarrow> real" where
  "fsub r x y = r (x - y)"

definition fmul :: "rounding \<Rightarrow> real \<Rightarrow> real \<Rightarrow> real" where
  "fmul r x y = r (x * y)"

definition fdiv :: "rounding \<Rightarrow> real \<Rightarrow> real \<Rightarrow> real" where
  "fdiv r x y = r (x / y)"

text \<open>
  Two roundings. \<open>exact\<close> does not round: it is arithmetic on the reals. \<open>binary64\<close>
  rounds to the nearest double, ties to the even significand: a real \<open>x\<close> other than 0
  with \<open>2^e <= |x| < 2^(e+1)\<close> is rounded to a multiple of \<open>2^(e-52)\<close>. (The exponent
  range of \<open>binary64\<close> is not bounded here: no overflow and no subnormal numbers.)
\<close>

definition exact :: rounding where
  "exact x = x"

definition round_half_even :: "real \<Rightarrow> int" where
  "round_half_even q =
     (let f = \<lfloor>q\<rfloor>
      in if q - of_int f < 1 / 2 then f
         else if q - of_int f > 1 / 2 then f + 1
         else if even f then f else f + 1)"

definition binary64 :: rounding where
  "binary64 x =
     (if x = 0 then 0
      else (let e = \<lfloor>log 2 \<bar>x\<bar>\<rfloor>; ulp = 2 powr (of_int e - 52)
            in of_int (round_half_even (x / ulp)) * ulp))"

section \<open>The fixed-step scheduler (src/engine/game.js)\<close>

text \<open>
  \<open>Game.updateInfo\<close>, field by field. The source's \<open>last\<close> is \<open>lastTimestamp\<close>
  here and the (never read) \<open>updateInfo.desiredFPS\<close> is \<open>info_desiredFPS\<close>, since a
  record field is a constant of the theory. \<open>slowStepSec\<close> does not exist on the object
  the constructor builds; \<open>None\<close> is the absent property.
\<close>

record updateInfo =
  spiraling :: int
  lastTimestamp :: real
  realDelta :: real
  deltaTime :: real
  info_desiredFPS :: real
  lastCount :: nat
  step :: real
  slowStep :: real
  count :: nat
  slowStepSec :: "real option"

record game =
  desiredFPS :: real
  updateInfo :: updateInfo

text \<open>The constructor \<open>Game()\<close>.\<close>

definition Game_new :: game where
  "Game_new =
     \<lparr> desiredFPS = 60,
       updateInfo =
         \<lparr> spiraling = 0, lastTimestamp = - 1, realDelta = 0, deltaTime = 0,
           info_desiredFPS = 30, lastCount = 0, step = 0, slowStep = 0, count = 0,
           slowStepSec = None \<rparr> \<rparr>"

text \<open>
  The two callbacks \<open>run\<close> makes, \<open>this.fixedUpdate(slowStep, slowStepSec)\<close> and
  \<open>this.update(realDelta, realDelta * 0.001)\<close>, belong to the systems of the game and
  are outside this file. A tick is modelled with the list of the calls it makes, in
  order, each with its arguments.
\<close>

datatype tick_event =
  FixedUpdate real "real option"
| Update real real

fun is_fixed :: "tick_event \<Rightarrow> bool" where
  "is_fixed (FixedUpdate d s) = True"
| "is_fixed (Update d s) = False"

text \<open>
  The catch-up loop
  \<^verbatim>\<open>while (updateInfo.deltaTime >= updateInfo.step) { deltaTime -= step; fixedUpdate(..); count += 1 }\<close>.
  Nothing in the source bounds it: with a step that is not positive it never exits, and
  then its value here is \<open>None\<close>.
\<close>

partial_function (option) catch_up ::
  "rounding \<Rightarrow> updateInfo \<Rightarrow> tick_event list \<Rightarrow> (updateInfo \<times> tick_event list) option" where
  "catch_up r ui evs =
     (if deltaTime ui \<ge> step ui
      then catch_up r (ui\<lparr>deltaTime := fsub r (deltaTime ui) (step ui), count := count ui + 1\<rparr>)
             (evs @ [FixedUpdate (slowStep ui) (slowStepSec ui)])
      else Some (ui, evs))"

text \<open>
  What one call of \<open>run\<close> comes to: it returns (with the new game and the callbacks
  made), or its loop never exits, or \<open>desiredFPS\<close> is 0 and \<open>1000.0 / desiredFPS\<close> is
  an infinity, which this model of numbers does not represent.
\<close>

datatype 'a outcome = Returned 'a | Diverged | NonFinite

text \<open>
  \<open>Game.prototype.run(timestamp)\<close>. \<open>speed\<close> is \<open>core.speed\<close>, a global of
  \<open>engine/core\<close> that is not part of these sources and is taken as a parameter.
\<close>

definition run :: "rounding \<Rightarrow> real \<Rightarrow> game \<Rightarrow> real \<Rightarrow> (game \<times> tick_event list) outcome" where
  "run r speed g timestamp =
     (let ui0 = updateInfo g;
          ui1 = (if lastTimestamp ui0 > 0
                 then ui0\<lparr>realDelta := fsub r timestamp (lastTimestamp ui0)\<rparr> else ui0);
          ui2 = ui1\<lparr>lastTimestamp := timestamp\<rparr>
      in if spiraling ui2 > 1 then
           (let ui3 = ui2\<lparr>deltaTime := 0, spiraling := 0\<rparr>
            in Returned (g\<lparr>updateInfo := ui3\<rparr>,
                 [Update (realDelta ui3) (fmul r (realDelta ui3) (r 0.001))]))
         else if desiredFPS g = 0 then NonFinite
         else
           (let ui3 = ui2\<lparr>step := fdiv r 1000 (desiredFPS g)\<rparr>;
                ui4 = ui3\<lparr>slowStep := fmul r (step ui3) speed\<rparr>;
                ui5 = ui4\<lparr>slowStepSec := Some (fmul r (fmul r (step ui4) (r 0.001)) speed)\<rparr>;
                ui6 = ui5\<lparr>deltaTime :=
                        fadd r (deltaTime ui5) (max (min (fmul r (step ui5) 3) (realDelta ui5)) 0)\<rparr>;
                ui7 = ui6\<lparr>count := 0\<rparr>
            in case catch_up r ui7 [] of
                 None \<Rightarrow> Diverged
               | Some (ui8, evs) \<Rightarrow>
                   (let ui9 = (if count ui8 > lastCount ui8
                               then ui8\<lparr>spiraling := spiraling ui8 + 1\<rparr>
                               else if count ui8 < lastCount ui8
                               then ui8\<lparr>spiraling := 0\<rparr>
                               else ui8);
                        ui10 = ui9\<lparr>lastCount := count ui9\<rparr>
                    in Returned (g\<lparr>updateInfo := ui10\<rparr>,
                         evs @ [Update (realDelta ui10) (fmul r (realDelta ui10) (r 0.001))]))))"

text \<open>
  A run of the scheduler: the ticks \<open>run\<close> is called with, one after the other, from a
  given game. It stops at the first tick that does not return.
\<close>

fun runs :: "rounding \<Rightarrow> real \<Rightarrow> game \<Rightarrow> real list \<Rightarrow> game outcome" where
  "runs r speed g [] = Returned g"
| "runs r speed g (t # ts) =
     (case run r speed g t of
        Returned (g', evs) \<Rightarrow> runs r speed g' ts
      | Diverged \<Rightarrow> Diverged
      | NonFinite \<Rightarrow> NonFinite)"

text \<open>
  Two abbreviations used to state what a tick does: the \<open>realDelta\<close> the tick works
  with (the first three lines of \<open>run\<close>), and the accumulator \<open>deltaTime\<close> after the
  capped credit is added, that is the value the catch-up loop starts from.
\<close>

definition tick_delta :: "rounding \<Rightarrow> game \<Rightarrow> real \<Rightarrow> real" where
  "tick_delta r g t =
     (if lastTimestamp (updateInfo g) > 0 then fsub r t (lastTimestamp (updateInfo g))
      else realDelta (updateInfo g))"

definition credited :: "rounding \<Rightarrow> game \<Rightarrow> real \<Rightarrow> real" where
  "credited r g t =
     fadd r (deltaTime (updateInfo g))
       (max (min (fmul r (fdiv r 1000 (desiredFPS g)) 3) (tick_delta r g t)) 0)"

text \<open>
  The invariant of the scheduler's record between ticks: the spiral counter is not
  negative, and \<open>count\<close> is the \<open>lastCount\<close> the next tick compares with.
\<close>

definition settled :: "game \<Rightarrow> bool" where
  "settled g = (0 \<le> spiraling (updateInfo g) \<and> count (updateInfo g) = lastCount (updateInfo g))"

section \<open>The physics module (World, CollisionSolver, Body, Rectangle, Circle)\<close>

subsection \<open>Vectors and Math.clamp\<close>

text \<open>
  \<open>engine/vector\<close> is imported by the physics module but is not among the sources.
  A vector is a pair of numbers; its fields \<open>x\<close> and \<open>y\<close> are \<open>vec_x\<close> and \<open>vec_y\<close>
  here. Vectors are values: no two bodies share one.
\<close>

record vector =
  vec_x :: real
  vec_y :: real

text \<open>
  Modelled from the spec: \<open>new Vector()\<close>, which is missing from the sources. The spec
  gives the vector fields of a new body the default \<open>0,0\<close>.
\<close>

definition Vector_new :: vector where
  "Vector_new = \<lparr>vec_x = 0, vec_y = 0\<rparr>"

text \<open>
  Modelled from the spec: \<open>Vector.add(x, y)\<close>, missing from the sources. The spec writes
  its uses as \<open>velocity += force * deltaSeconds\<close> and \<open>position += velocity * deltaSeconds\<close>,
  componentwise.
\<close>

definition Vector_add :: "rounding \<Rightarrow> vector \<Rightarrow> real \<Rightarrow> real \<Rightarrow> vector" where
  "Vector_add r v dx dy = \<lparr>vec_x = fadd r (vec_x v) dx, vec_y = fadd r (vec_y v) dy\<rparr>"

text \<open>
  Modelled from the spec: \<open>Vector.scale(f)\<close>, missing from the sources. The spec writes
  its use as \<open>velocity *= (1 - damping)^deltaSeconds\<close>.
\<close>

definition Vector_scale :: "rounding \<Rightarrow> vector \<Rightarrow> real \<Rightarrow> vector" where
  "Vector_scale r v f = \<lparr>vec_x = fmul r (vec_x v) f, vec_y = fmul r (vec_y v) f\<rparr>"

text \<open>
  Modelled from the spec: \<open>Vector.distance(other)\<close>, missing from the sources. The spec
  names it \<open>distance(a.position, b.position)\<close>; it is the Euclidean distance of the two
  points, as a number of the engine.
\<close>

definition Vector_distance :: "rounding \<Rightarrow> vector \<Rightarrow> vector \<Rightarrow> real" where
  "Vector_distance r p q = r (sqrt ((vec_x p - vec_x q)\<^sup>2 + (vec_y p - vec_y q)\<^sup>2))"

text \<open>
  Modelled from the spec: \<open>Math.clamp(x, lo, hi)\<close>, an extension of \<open>Math\<close> that the
  engine installs outside these sources. The spec: "clamp each velocity axis to
  \<open>[-velocityLimit.axis, velocityLimit.axis]\<close>".
\<close>

definition Math_clamp :: "real \<Rightarrow> real \<Rightarrow> real \<Rightarrow> real" where
  "Math_clamp v lo hi = (if v < lo then lo else if v > hi then hi else v)"

subsection \<open>Shapes and bodies\<close>

text \<open>
  The constructors \<open>Rectangle(width, height)\<close> and \<open>Circle(radius)\<close>. The solver never
  asks which constructor made a shape: it reads the properties \<open>width\<close>, \<open>height\<close> and
  \<open>radius\<close>, so that any object can stand for a shape. \<open>OtherShape w h r\<close> is an
  object made by neither constructor, with its \<open>width\<close>, \<open>height\<close> and \<open>radius\<close>: each
  is a number, or the object does not have the property. A property a shape does not
  have reads as \<open>undefined\<close>, here \<open>None\<close>.
\<close>

datatype shape =
  Rectangle real real
| Circle real
| OtherShape "real option" "real option" "real option"

fun width :: "shape \<Rightarrow> real option" where
  "width (Rectangle w h) = Some w"
| "width (Circle r) = None"
| "width (OtherShape w h r) = w"

fun height :: "shape \<Rightarrow> real option" where
  "height (Rectangle w h) = Some h"
| "height (Circle r) = None"
| "height (OtherShape w h r) = h"

fun radius :: "shape \<Rightarrow> real option" where
  "radius (Rectangle w h) = None"
| "radius (Circle r) = Some r"
| "radius (OtherShape w h r) = r"

text \<open>
  A body, field by field as the constructor \<open>Body\<close> sets them. Bodies and worlds are
  objects with identity: a reference to one is a natural number, looked up in the store
  below. \<open>None\<close> is \<open>null\<close>. The source's \<open>last\<close> is \<open>lastPosition\<close>, \<open>_collides\<close> is
  \<open>collides\<close> and \<open>_remove\<close> is \<open>removed\<close> (it is \<open>undefined\<close>, which is falsy, until
  \<open>addBody\<close> sets it). A \<open>collisionGroup\<close> that is not a number is \<open>None\<close>.
\<close>

record body =
  world :: "nat option"
  shape :: "shape option"
  position :: vector
  lastPosition :: vector
  velocity :: vector
  velocityLimit :: vector
  mass :: real
  collisionGroup :: "int option"
  collideAgainst :: "int list"
  force :: vector
  damping :: real
  collides :: "nat list"
  removed :: bool

text \<open>
  \<open>Body(properties)\<close>: the defaults, then \<open>Object.assign(this, properties)\<close>. The
  properties object is the list of its own \<open>key: value\<close> pairs, for the keys that are
  fields of a body.
\<close>

datatype property =
  P_world "nat option"
| P_shape "shape option"
| P_position vector
| P_last vector
| P_velocity vector
| P_velocityLimit vector
| P_mass real
| P_collisionGroup "int option"
| P_collideAgainst "int list"
| P_force vector
| P_damping real

fun assign :: "body \<Rightarrow> property \<Rightarrow> body" where
  "assign b (P_world v) = b\<lparr>world := v\<rparr>"
| "assign b (P_shape v) = b\<lparr>shape := v\<rparr>"
| "assign b (P_position v) = b\<lparr>position := v\<rparr>"
| "assign b (P_last v) = b\<lparr>lastPosition := v\<rparr>"
| "assign b (P_velocity v) = b\<lparr>velocity := v\<rparr>"
| "assign b (P_velocityLimit v) = b\<lparr>velocityLimit := v\<rparr>"
| "assign b (P_mass v) = b\<lparr>mass := v\<rparr>"
| "assign b (P_collisionGroup v) = b\<lparr>collisionGroup := v\<rparr>"
| "assign b (P_collideAgainst v) = b\<lparr>collideAgainst := v\<rparr>"
| "assign b (P_force v) = b\<lparr>force := v\<rparr>"
| "assign b (P_damping v) = b\<lparr>damping := v\<rparr>"

definition Body_defaults :: body where
  "Body_defaults =
     \<lparr> world = None, shape = None, position = Vector_new, lastPosition = Vector_new,
       velocity = Vector_new, velocityLimit = \<lparr>vec_x = 400, vec_y = 400\<rparr>, mass = 0,
       collisionGroup = None, collideAgainst = [], force = Vector_new, damping = 0,
       collides = [], removed = False \<rparr>"

definition Body_new :: "property list \<Rightarrow> body" where
  "Body_new properties = foldl assign Body_defaults properties"

text \<open>
  A world: \<open>gravity\<close>, the list \<open>bodies\<close> and the object \<open>collisionGroups\<close>, from group
  numbers to lists of bodies. Its \<open>solver\<close> has no state and is left out.
\<close>

record world_rec =
  gravity :: vector
  bodies :: "nat list"
  collisionGroups :: "int \<Rightarrow> nat list option"

definition World_new :: "real \<Rightarrow> real \<Rightarrow> world_rec" where
  "World_new gx gy = \<lparr> gravity = \<lparr>vec_x = gx, vec_y = gy\<rparr>, bodies = [], collisionGroups = (\<lambda>k. None) \<rparr>"

subsection \<open>The store, exceptions and callbacks\<close>

text \<open>
  The overridable methods \<open>Body.collide(other, direction)\<close> and
  \<open>Body.afterCollide(other)\<close> are called by the solver and the world; \<open>calls\<close> records
  these calls and the calls of \<open>solver.hitResponse\<close> in the order they are made.
\<close>

datatype direction = DOWN | UP | RIGHT | LEFT

datatype collide_arg = Direction direction | Angle real | NoArgument

datatype call =
  HitResponse nat nat
| Collide nat nat collide_arg
| AfterCollide nat nat

text \<open>Every reference denotes an object, so the store is total.\<close>

record store =
  body_of :: "nat \<Rightarrow> body"
  world_of :: "nat \<Rightarrow> world_rec"
  calls :: "call list"

definition upd_body :: "store \<Rightarrow> nat \<Rightarrow> (body \<Rightarrow> body) \<Rightarrow> store" where
  "upd_body st b f = st\<lparr>body_of := (body_of st)(b := f (body_of st b))\<rparr>"

definition upd_world :: "store \<Rightarrow> nat \<Rightarrow> (world_rec \<Rightarrow> world_rec) \<Rightarrow> store" where
  "upd_world st w f = st\<lparr>world_of := (world_of st)(w := f (world_of st w))\<rparr>"

definition record_call :: "store \<Rightarrow> call \<Rightarrow> store" where
  "record_call st c = st\<lparr>calls := calls st @ [c]\<rparr>"

text \<open>
  Reading a property of \<open>null\<close> raises \<open>TypeError\<close>. A method that changes the store
  either returns a value or throws, and in both cases leaves a store behind.
\<close>

datatype js_error = TypeError

datatype 'a completion = Normal 'a store | Throw js_error store

text \<open>
  What the physics module takes from outside: the \<open>collide\<close> method of a body, which a
  subclass may override (it sees the store and answers whether the response is applied;
  it is taken not to change the store), and \<open>Vector.angle\<close> of \<open>engine/vector\<close>, which
  is missing from the sources and of which the spec says no more than
  \<open>angleFrom(b.position, a.position)\<close>.
\<close>

record externals =
  collide_hook :: "store \<Rightarrow> nat \<Rightarrow> nat \<Rightarrow> collide_arg \<Rightarrow> bool"
  Vector_angle :: "vector \<Rightarrow> vector \<Rightarrow> real"

text \<open>\<open>Body.prototype.collide\<close> as the source defines it: \<open>return true\<close>.\<close>

definition Body_collide :: "store \<Rightarrow> nat \<Rightarrow> nat \<Rightarrow> collide_arg \<Rightarrow> bool" where
  "Body_collide st a b arg = True"

subsection \<open>CollisionSolver.hitTest\<close>

text \<open>
  The conditions of the solver read \<open>x.shape.width\<close> or \<open>x.shape.radius\<close> and test
  the value for truthiness: \<open>TypeError\<close> when \<open>x.shape\<close> is \<open>null\<close>, false when the
  property is \<open>undefined\<close> or the number 0, true for every other number.
\<close>

definition shape_has :: "(shape \<Rightarrow> real option) \<Rightarrow> body \<Rightarrow> js_error + bool" where
  "shape_has prop b =
     (case shape b of
        None \<Rightarrow> Inl TypeError
      | Some s \<Rightarrow> Inr (case prop s of None \<Rightarrow> False | Some n \<Rightarrow> n \<noteq> 0))"

text \<open>
  \<open>l && r\<close> and \<open>l || r\<close> on conditions: the left operand is evaluated first and the
  right one only when the left one does not decide. An operand that is not evaluated
  cannot throw.
\<close>

definition js_and :: "js_error + bool \<Rightarrow> js_error + bool \<Rightarrow> js_error + bool" where
  "js_and l r = (case l of Inl e \<Rightarrow> Inl e | Inr c \<Rightarrow> if c then r else Inr False)"

definition js_or :: "js_error + bool \<Rightarrow> js_error + bool \<Rightarrow> js_error + bool" where
  "js_or l r = (case l of Inl e \<Rightarrow> Inl e | Inr c \<Rightarrow> if c then Inr True else r)"

text \<open>
  The numbers \<open>x.shape.width\<close>, \<open>x.shape.height\<close> and \<open>x.shape.radius\<close>. The solver
  computes with a \<open>width\<close> or a \<open>radius\<close> only after the condition above has found it
  truthy, and then the shape has the property. It reads \<open>height\<close> unchecked: the
  \<open>height\<close> of a shape that has none is \<open>undefined\<close>, every arithmetic result computed
  from it is NaN, and every comparison with NaN is false. NaN is not a number of this
  model; instead, a comparison that reads a \<open>height\<close> holds only if that \<open>height\<close> is
  \<open>defined\<close>.
\<close>

definition number :: "(shape \<Rightarrow> real option) \<Rightarrow> body \<Rightarrow> real" where
  "number prop b = the (prop (the (shape b)))"

definition defined :: "(shape \<Rightarrow> real option) \<Rightarrow> body \<Rightarrow> bool" where
  "defined prop b = (case shape b of None \<Rightarrow> False | Some s \<Rightarrow> prop s \<noteq> None)"

text \<open>
  The rectangle against rectangle test of \<open>hitTest\<close>, on current positions. The two
  comparisons on \<open>y\<close> read the heights.
\<close>

definition rect_overlap :: "rounding \<Rightarrow> body \<Rightarrow> body \<Rightarrow> bool" where
  "rect_overlap r a b =
     (\<not> (defined height a \<and> defined height b \<and>
         fadd r (vec_y (position a)) (fdiv r (number height a) 2)
            \<le> fsub r (vec_y (position b)) (fdiv r (number height b) 2) \<or>
         defined height a \<and> defined height b \<and>
         fsub r (vec_y (position a)) (fdiv r (number height a) 2)
            \<ge> fadd r (vec_y (position b)) (fdiv r (number height b) 2) \<or>
         fsub r (vec_x (position a)) (fdiv r (number width a) 2)
            \<ge> fadd r (vec_x (position b)) (fdiv r (number width b) 2) \<or>
         fadd r (vec_x (position a)) (fdiv r (number width a) 2)
            \<le> fsub r (vec_x (position b)) (fdiv r (number width b) 2)))"

text \<open>
  The rectangle against circle test of \<open>hitTest\<close>, with \<open>Math.pow(d, 2)\<close> as \<open>r (d\<^sup>2)\<close>.
  When the rectangle has no height, \<open>y\<close> and the distance are NaN and the test is false.
\<close>

definition rect_circle_overlap :: "rounding \<Rightarrow> body \<Rightarrow> body \<Rightarrow> bool" where
  "rect_circle_overlap r rect circle =
     (let x = max (fsub r (vec_x (position rect)) (fdiv r (number width rect) 2))
                (min (fadd r (vec_x (position rect)) (fdiv r (number width rect) 2))
                     (vec_x (position circle)));
          y = max (fsub r (vec_y (position rect)) (fdiv r (number height rect) 2))
                (min (fadd r (vec_y (position rect)) (fdiv r (number height rect) 2))
                     (vec_y (position circle)));
          d = fadd r (r ((fsub r (vec_x (position circle)) x)\<^sup>2))
                     (r ((fsub r (vec_y (position circle)) y)\<^sup>2))
      in defined height rect \<and> d < fmul r (number radius circle) (number radius circle))"

definition hitTest :: "rounding \<Rightarrow> body \<Rightarrow> body \<Rightarrow> js_error + bool" where
  "hitTest r a b =
     (case js_and (shape_has width a) (shape_has width b) of
        Inl e \<Rightarrow> Inl e
      | Inr both_width \<Rightarrow>
          if both_width then Inr (rect_overlap r a b)
          else
            (case js_and (shape_has radius a) (shape_has radius b) of
               Inl e \<Rightarrow> Inl e
             | Inr both_radius \<Rightarrow>
                 if both_radius
                 then Inr (fadd r (number radius a) (number radius b)
                             > Vector_distance r (position a) (position b))
                 else
                   (case js_or (js_and (shape_has width a) (shape_has radius b))
                               (js_and (shape_has radius a) (shape_has width b)) of
                      Inl e \<Rightarrow> Inl e
                    | Inr mixed \<Rightarrow>
                        if mixed
                        then (let rect = (if shape_has width a = Inr True then a else b);
                                  circle = (if shape_has radius a = Inr True then a else b)
                              in Inr (rect_circle_overlap r rect circle))
                        else Inr False)))"

subsection \<open>CollisionSolver.hitResponse\<close>

text \<open>
  One branch of \<open>hitResponse\<close>: \<open>if (a.collide(b, arg)) { move a; return true; }\<close>, and
  the fall through to the end of the function, whose \<open>undefined\<close> is falsy.
\<close>

definition respond ::
  "externals \<Rightarrow> store \<Rightarrow> nat \<Rightarrow> nat \<Rightarrow> collide_arg \<Rightarrow> (body \<Rightarrow> body) \<Rightarrow> bool completion" where
  "respond ext st a b arg move =
     (let st1 = record_call st (Collide a b arg)
      in if collide_hook ext st a b arg
         then Normal True (upd_body st1 a move)
         else Normal False st1)"

definition set_position_x :: "real \<Rightarrow> body \<Rightarrow> body" where
  "set_position_x v bd = bd\<lparr>position := (position bd)\<lparr>vec_x := v\<rparr>\<rparr>"

definition set_position_y :: "real \<Rightarrow> body \<Rightarrow> body" where
  "set_position_y v bd = bd\<lparr>position := (position bd)\<lparr>vec_y := v\<rparr>\<rparr>"

definition hitResponse ::
  "rounding \<Rightarrow> externals \<Rightarrow> store \<Rightarrow> nat \<Rightarrow> nat \<Rightarrow> bool completion" where
  "hitResponse r ext st a b =
     (let A = body_of st a; B = body_of st b
      in case js_and (shape_has width A) (shape_has width B) of
           Inl e \<Rightarrow> Throw e st
         | Inr both_width \<Rightarrow>
             if both_width then
               if defined height A \<and> defined height B \<and>
                  fadd r (vec_y (lastPosition A)) (fdiv r (number height A) 2)
                    \<le> fsub r (vec_y (lastPosition B)) (fdiv r (number height B) 2)
               then respond ext st a b (Direction DOWN)
                      (set_position_y
                         (fsub r (fsub r (vec_y (position B)) (fdiv r (number height B) 2))
                                 (fdiv r (number height A) 2)))
               else if defined height A \<and> defined height B \<and>
                       fsub r (vec_y (lastPosition A)) (fdiv r (number height A) 2)
                         \<ge> fadd r (vec_y (lastPosition B)) (fdiv r (number height B) 2)
               then respond ext st a b (Direction UP)
                      (set_position_y
                         (fadd r (fadd r (vec_y (position B)) (fdiv r (number height B) 2))
                                 (fdiv r (number height A) 2)))
               else if fadd r (vec_x (lastPosition A)) (fdiv r (number width A) 2)
                         \<le> fsub r (vec_x (lastPosition B)) (fdiv r (number width B) 2)
               then respond ext st a b (Direction RIGHT)
                      (set_position_x
                         (fsub r (fsub r (vec_x (position B)) (fdiv r (number width B) 2))
                                 (fdiv r (number width A) 2)))
               else if fsub r (vec_x (lastPosition A)) (fdiv r (number width A) 2)
                         \<ge> fadd r (vec_x (lastPosition B)) (fdiv r (number width B) 2)
               then respond ext st a b (Direction LEFT)
                      (set_position_x
                         (fadd r (fadd r (vec_x (position B)) (fdiv r (number width B) 2))
                                 (fdiv r (number width A) 2)))
               else respond ext st a b NoArgument (\<lambda>bd. bd)
             else
               (case js_and (shape_has radius A) (shape_has radius B) of
                  Inl e \<Rightarrow> Throw e st
                | Inr both_radius \<Rightarrow>
                    if both_radius then
                      (let ang = Vector_angle ext (position B) (position A);
                           reach = fadd r (number radius A) (number radius B)
                       in respond ext st a b (Angle ang)
                            (\<lambda>bd. set_position_y
                                     (fadd r (vec_y (position B)) (fmul r (r (sin ang)) reach))
                                     (set_position_x
                                        (fadd r (vec_x (position B)) (fmul r (r (cos ang)) reach))
                                        bd)))
                    else Normal False st))"

subsection \<open>World.collide\<close>

text \<open>
  The first inner loop, \<open>for (i = group.length - 1; i >= 0; i--)\<close>: it visits the
  members of the group from the last one to the first, so it is a recursion over the
  reversed list. (\<open>if (!group) break\<close> never fires: \<open>group\<close> is an array.)
  \<open>body._collides.push(b)\<close> appends.
\<close>

fun collect :: "rounding \<Rightarrow> store \<Rightarrow> nat \<Rightarrow> nat list \<Rightarrow> unit completion" where
  "collect r st a [] = Normal () st"
| "collect r st a (b # bs) =
     (if a \<noteq> b then
        (case hitTest r (body_of st a) (body_of st b) of
           Inl e \<Rightarrow> Throw e st
         | Inr hit \<Rightarrow>
             if hit
             then collect r (upd_body st a (\<lambda>bd. bd\<lparr>collides := collides bd @ [b]\<rparr>)) a bs
             else collect r st a bs)
      else collect r st a bs)"

text \<open>
  The second inner loop, \<open>for (i = body._collides.length - 1; i >= 0; i--)\<close>, again from
  the last element to the first. Neither \<open>hitResponse\<close> nor the callbacks change
  \<open>_collides\<close>, so the loop runs over the reversed list as it is when the loop starts.
  \<open>afterCollide\<close> does nothing in \<open>Body\<close>; its call is recorded.
\<close>

fun respond_all ::
  "rounding \<Rightarrow> externals \<Rightarrow> store \<Rightarrow> nat \<Rightarrow> nat list \<Rightarrow> unit completion" where
  "respond_all r ext st a [] = Normal () st"
| "respond_all r ext st a (b # bs) =
     (case hitResponse r ext (record_call st (HitResponse a b)) a b of
        Throw e st1 \<Rightarrow> Throw e st1
      | Normal applied st1 \<Rightarrow>
          respond_all r ext (if applied then record_call st1 (AfterCollide a b) else st1) a bs)"

text \<open>The body of the outer loop of \<open>World.collide\<close>, for one entry of \<open>collideAgainst\<close>.\<close>

definition collide_group ::
  "rounding \<Rightarrow> externals \<Rightarrow> store \<Rightarrow> nat \<Rightarrow> nat \<Rightarrow> int \<Rightarrow> unit completion" where
  "collide_group r ext st w a key =
     (let st1 = upd_body st a (\<lambda>bd. bd\<lparr>collides := []\<rparr>)
      in case collisionGroups (world_of st1 w) key of
           None \<Rightarrow> Normal () st1
         | Some grp \<Rightarrow>
             (case collect r st1 a (rev grp) of
                Throw e st2 \<Rightarrow> Throw e st2
              | Normal u st2 \<Rightarrow> respond_all r ext st2 a (rev (collides (body_of st2 a)))))"

text \<open>
  \<open>World.prototype.collide(body)\<close>, a method of the world \<open>w\<close>: the outer loop over
  \<open>body.collideAgainst\<close>, which nothing in the loop changes.
\<close>

fun collide_groups ::
  "rounding \<Rightarrow> externals \<Rightarrow> store \<Rightarrow> nat \<Rightarrow> nat \<Rightarrow> int list \<Rightarrow> unit completion" where
  "collide_groups r ext st w a [] = Normal () st"
| "collide_groups r ext st w a (key # keys) =
     (case collide_group r ext st w a key of
        Throw e st1 \<Rightarrow> Throw e st1
      | Normal u st1 \<Rightarrow> collide_groups r ext st1 w a keys)"

definition World_collide ::
  "rounding \<Rightarrow> externals \<Rightarrow> store \<Rightarrow> nat \<Rightarrow> nat \<Rightarrow> unit completion" where
  "World_collide r ext st w a = collide_groups r ext st w a (collideAgainst (body_of st a))"

text \<open>
  The calls of \<open>solver.hitResponse\<close> among the recorded calls, in order, and the test
  that decides whether the world puts \<open>b\<close> on the list of \<open>a\<close>: \<open>body !== b\<close> and
  \<open>hitTest(body, b)\<close>.
\<close>

fun responses :: "call list \<Rightarrow> (nat \<times> nat) list" where
  "responses [] = []"
| "responses (HitResponse a b # cs) = (a, b) # responses cs"
| "responses (Collide a b arg # cs) = responses cs"
| "responses (AfterCollide a b # cs) = responses cs"

definition hits :: "rounding \<Rightarrow> store \<Rightarrow> nat \<Rightarrow> nat \<Rightarrow> bool" where
  "hits r st a b = (a \<noteq> b \<and> hitTest r (body_of st a) (body_of st b) = Inr True)"

subsection \<open>World.addBody, World.addBodyCollision and Body.addTo\<close>

definition World_addBodyCollision :: "store \<Rightarrow> nat \<Rightarrow> nat \<Rightarrow> store" where
  "World_addBodyCollision st w b =
     (case collisionGroup (body_of st b) of
        None \<Rightarrow> st
      | Some g \<Rightarrow>
          (let grp = (case collisionGroups (world_of st w) g of None \<Rightarrow> [] | Some l \<Rightarrow> l);
               st1 = upd_world st w (\<lambda>wd. wd\<lparr>collisionGroups := (collisionGroups wd)(g := Some grp)\<rparr>)
           in if b \<in> set grp then st1
              else upd_world st1 w
                     (\<lambda>wd. wd\<lparr>collisionGroups := (collisionGroups wd)(g := Some (grp @ [b]))\<rparr>)))"

definition World_addBody :: "store \<Rightarrow> nat \<Rightarrow> nat \<Rightarrow> store" where
  "World_addBody st w b =
     (let st1 = upd_body st b (\<lambda>bd. bd\<lparr>world := Some w\<rparr>);
          st2 = upd_body st1 b (\<lambda>bd. bd\<lparr>removed := False\<rparr>);
          st3 = upd_world st2 w (\<lambda>wd. wd\<lparr>bodies := bodies wd @ [b]\<rparr>)
      in World_addBodyCollision st3 w b)"

text \<open>\<open>Body.prototype.addTo(world)\<close>, a method of the body \<open>b\<close>; what it returns is not used.\<close>

definition Body_addTo :: "store \<Rightarrow> nat \<Rightarrow> nat \<Rightarrow> store" where
  "Body_addTo st b w = (if world (body_of st b) \<noteq> None then st else World_addBody st w b)"

subsection \<open>Body.update\<close>

text \<open>
  \<open>Body.prototype.update(delta)\<close>, a method of the body \<open>b\<close>, statement by statement.
  \<open>this.world.gravity\<close> is read only when \<open>mass !== 0\<close>, and raises \<open>TypeError\<close> when
  \<open>this.world\<close> is \<open>null\<close>. \<open>Math.pow(1 - damping, delta)\<close> is taken with a base
  strictly between 0 and 1, where it is \<open>powr\<close>.
\<close>

definition Body_update :: "rounding \<Rightarrow> store \<Rightarrow> nat \<Rightarrow> real \<Rightarrow> unit completion" where
  "Body_update r st b delta =
     (let st1 = upd_body st b (\<lambda>bd. bd\<lparr>lastPosition := position bd\<rparr>);
          bd1 = body_of st1 b
      in if mass bd1 \<noteq> 0 \<and> world bd1 = None then Throw TypeError st1
         else
           (let st2 = (if mass bd1 \<noteq> 0
                       then upd_body st1 b (\<lambda>bd. bd\<lparr>velocity :=
                              Vector_add r (velocity bd)
                                (fmul r (fmul r (vec_x (gravity (world_of st1 (the (world bd)))))
                                           (mass bd)) delta)
                                (fmul r (fmul r (vec_y (gravity (world_of st1 (the (world bd)))))
                                           (mass bd)) delta)\<rparr>)
                       else st1);
                st3 = upd_body st2 b (\<lambda>bd. bd\<lparr>velocity :=
                        Vector_add r (velocity bd) (fmul r (vec_x (force bd)) delta)
                          (fmul r (vec_y (force bd)) delta)\<rparr>);
                st4 = (if damping (body_of st3 b) > 0 \<and> damping (body_of st3 b) < 1
                       then upd_body st3 b (\<lambda>bd. bd\<lparr>velocity :=
                              Vector_scale r (velocity bd) (r (fsub r 1 (damping bd) powr delta))\<rparr>)
                       else st3);
                st5 = (if vec_x (velocityLimit (body_of st4 b)) > 0
                       then upd_body st4 b (\<lambda>bd. bd\<lparr>velocity := (velocity bd)\<lparr>vec_x :=
                              Math_clamp (vec_x (velocity bd)) (- vec_x (velocityLimit bd))
                                (vec_x (velocityLimit bd))\<rparr>\<rparr>)
                       else st4);
                st6 = (if vec_y (velocityLimit (body_of st5 b)) > 0
                       then upd_body st5 b (\<lambda>bd. bd\<lparr>velocity := (velocity bd)\<lparr>vec_y :=
                              Math_clamp (vec_y (velocity bd)) (- vec_y (velocityLimit bd))
                                (vec_y (velocityLimit bd))\<rparr>\<rparr>)
                       else st5);
                st7 = upd_body st6 b (\<lambda>bd. bd\<lparr>position :=
                        Vector_add r (position bd) (fmul r (vec_x (velocity bd)) delta)
                          (fmul r (vec_y (velocity bd)) delta)\<rparr>)
            in Normal () st7))"

subsection \<open>Auxiliary definitions for the statements\<close>

text \<open>
  Steps 2 to 4 of the spec's contract of \<open>update\<close>, for one axis: the velocity
  component \<open>v\<close> after gravity \<open>g\<close> (when the mass \<open>m\<close> is not 0), the force \<open>f\<close> and the
  damping \<open>d\<close> are applied over \<open>delta\<close> seconds, before any clamping, computed in the
  engine's arithmetic.
\<close>

definition spec_velocity ::
  "rounding \<Rightarrow> real \<Rightarrow> real \<Rightarrow> real \<Rightarrow> real \<Rightarrow> real \<Rightarrow> real \<Rightarrow> real" where
  "spec_velocity r v g m f d delta =
     (let v2 = (if m \<noteq> 0 then fadd r v (fmul r (fmul r g m) delta) else v);
          v3 = fadd r v2 (fmul r f delta)
      in if 0 < d \<and> d < 1 then fmul r v3 (r (fsub r 1 d powr delta)) else v3)"

text \<open>
  Steps 2 to 5 of the spec's contract of \<open>update\<close> for the body \<open>b\<close> of a store: the
  velocity of steps 2 to 4 on each axis, clamped to the limit of the axis when that
  limit is positive.
\<close>

definition spec_clamped :: "real \<Rightarrow> real \<Rightarrow> real" where
  "spec_clamped u L = (if L > 0 then Math_clamp u (- L) L else u)"

definition spec_update_velocity :: "rounding \<Rightarrow> store \<Rightarrow> nat \<Rightarrow> real \<Rightarrow> vector" where
  "spec_update_velocity r st b delta =
     (let bd = body_of st b; g = gravity (world_of st (the (world bd)))
      in \<lparr> vec_x = spec_clamped
                    (spec_velocity r (vec_x (velocity bd)) (vec_x g) (mass bd) (vec_x (force bd))
                       (damping bd) delta)
                    (vec_x (velocityLimit bd)),
           vec_y = spec_clamped
                    (spec_velocity r (vec_y (velocity bd)) (vec_y g) (mass bd) (vec_y (force bd))
                       (damping bd) delta)
                    (vec_y (velocityLimit bd)) \<rparr>)"

text \<open>
  A store of newly constructed objects, for the examples: every body is \<open>new Body()\<close>,
  every world is \<open>new World()\<close> (gravity 0, 980), and no call has been made.
\<close>

definition fresh_store :: store where
  "fresh_store = \<lparr> body_of = (\<lambda>r. Body_new []), world_of = (\<lambda>r. World_new 0 980), calls = [] \<rparr>"

text \<open>
  The externals of a world whose bodies all keep \<open>Body.prototype.collide\<close>, around a
  given \<open>Vector.angle\<close>; and a stand-in for \<open>Vector.angle\<close> in the examples, which
  have rectangles only and never call it.
\<close>

definition Body_externals :: "(vector \<Rightarrow> vector \<Rightarrow> real) \<Rightarrow> externals" where
  "Body_externals ang = \<lparr> collide_hook = Body_collide, Vector_angle = ang \<rparr>"

definition no_angle :: "vector \<Rightarrow> vector \<Rightarrow> real" where
  "no_angle p q = 0"

text \<open>The store a call leaves behind, whether it returns or throws.\<close>

fun final_store :: "'a completion \<Rightarrow> store" where
  "final_store (Normal v st) = st"
| "final_store (Throw e st) = st"

text \<open>
  Example: the 10 x 10 rectangle 0 was above the 10 x 10 rectangle 2 at its last
  position (bottom edge at -5, top edge of 2 at 10) and now overlaps it from above
  (bottom edge at 13).
\<close>

definition landing_store :: store where
  "landing_store =
     fresh_store\<lparr>body_of := (body_of fresh_store)
       (0 := Body_new [P_shape (Some (Rectangle 10 10)),
                       P_position \<lparr>vec_x = 0, vec_y = 8\<rparr>, P_last \<lparr>vec_x = 0, vec_y = - 10\<rparr>],
        2 := Body_new [P_shape (Some (Rectangle 10 10)),
                       P_position \<lparr>vec_x = 0, vec_y = 15\<rparr>, P_last \<lparr>vec_x = 0, vec_y = 15\<rparr>])\<rparr>"

text \<open>
  Example: rectangle 2 is 10 x 16 at y = -20, so its top edge is at -28. Rectangle 0 is
  10 wide and \<open>8 + 3 * 2^-49\<close> high (a double); its bottom edge was above -28 at its
  last position (y = -40) and is below it now (y = -31).
\<close>

definition grazing_store :: store where
  "grazing_store =
     fresh_store\<lparr>body_of := (body_of fresh_store)
       (0 := Body_new [P_shape (Some (Rectangle 10 (4503599627370499 / 562949953421312))),
                       P_position \<lparr>vec_x = 0, vec_y = - 31\<rparr>, P_last \<lparr>vec_x = 0, vec_y = - 40\<rparr>],
        2 := Body_new [P_shape (Some (Rectangle 10 16)),
                       P_position \<lparr>vec_x = 0, vec_y = - 20\<rparr>, P_last \<lparr>vec_x = 0, vec_y = - 20\<rparr>])\<rparr>"

text \<open>
  Example: three 50 x 50 rectangles at the origin. Bodies 2 and 3 are the members of
  collision group 7 of world 0, in this order; body 0 collides against group 7.
\<close>

definition pile_store :: store where
  "pile_store =
     fresh_store\<lparr>body_of := (body_of fresh_store)
       (0 := Body_new [P_shape (Some (Rectangle 50 50)), P_world (Some 0), P_collideAgainst [7]],
        2 := Body_new [P_shape (Some (Rectangle 50 50)), P_world (Some 0), P_collisionGroup (Some 7)],
        3 := Body_new [P_shape (Some (Rectangle 50 50)), P_world (Some 0), P_collisionGroup (Some 7)]),
       world_of := (world_of fresh_store)
       (0 := (World_new 0 980)\<lparr>bodies := [0, 2, 3], collisionGroups := (\<lambda>k. None)(7 := Some [2, 3])\<rparr>)\<rparr>"

text \<open>
  Example: body 5, of collision group 7, after world 0 has added it with \<open>addBody\<close>.
\<close>

definition owned_store :: store where
  "owned_store =
     World_addBody
       (fresh_store\<lparr>body_of := (body_of fresh_store)(5 := Body_new [P_collisionGroup (Some 7)])\<rparr>)
       0 5"

text \<open>
  Examples for \<open>update\<close>: a body without mass, in no world, faster than its limit of
  400 on the x axis and with no limit on the y axis; a body of mass 1 in no world; and
  a body of mass 1 in world 0, constructed without \<open>velocityLimit\<close> and faster than
  400 on both axes.
\<close>

definition speeding_store :: store where
  "speeding_store =
     fresh_store\<lparr>body_of := (body_of fresh_store)
       (0 := Body_new [P_velocity \<lparr>vec_x = 1000, vec_y = 1000000\<rparr>,
                       P_velocityLimit \<lparr>vec_x = 400, vec_y = 0\<rparr>])\<rparr>"

definition detached_store :: store where
  "detached_store = fresh_store\<lparr>body_of := (body_of fresh_store)(0 := Body_new [P_mass 1])\<rparr>"

definition falling_store :: store where
  "falling_store =
     fresh_store\<lparr>body_of := (body_of fresh_store)
       (0 := Body_new [P_mass 1, P_world (Some 0), P_velocity \<lparr>vec_x = 1000, vec_y = - 1000\<rparr>])\<rparr>"

text \<open>What a response may change: the position of \<open>a\<close> and the recorded calls.\<close>

definition moved :: "store \<Rightarrow> nat \<Rightarrow> store \<Rightarrow> bool" where
  "moved st a st' =
     (world_of st' = world_of st \<and> (\<forall>c. c \<noteq> a \<longrightarrow> body_of st' c = body_of st c) \<and>
      (body_of st' a)\<lparr>position := position (body_of st a)\<rparr> = body_of st a \<and>
      responses (calls st') = responses (calls st))"

section \<open>Numbers: proofs\<close>

text \<open>
  \<open>binary64\<close> is monotone, and its value at a number of a known binade is computed by
  \<open>binary64_at\<close>.
\<close>

lemma exact_ops [simp]:
  "fadd exact x y = x + y" "fsub exact x y = x - y" "fmul exact x y = x * y"
  "fdiv exact x y = x / y" "exact x = x"
  by (simp_all add: fadd_def fsub_def fmul_def fdiv_def exact_def)

lemma round_half_even_floor:
  "\<lfloor>q\<rfloor> \<le> round_half_even q" "round_half_even q \<le> \<lfloor>q\<rfloor> + 1"
  by (simp_all add: round_half_even_def Let_def)

lemma round_half_even_of_int [simp]: "round_half_even (of_int k) = k"
  by (simp add: round_half_even_def)

lemma round_half_even_mono:
  assumes "y \<le> z"
  shows "round_half_even y \<le> round_half_even z"
proof (cases "\<lfloor>y\<rfloor> = \<lfloor>z\<rfloor>")
  case True
  with assms show ?thesis
    by (auto simp: round_half_even_def Let_def)
next
  case False
  from assms have "\<lfloor>y\<rfloor> \<le> \<lfloor>z\<rfloor>" by (rule floor_mono)
  with False have "\<lfloor>y\<rfloor> + 1 \<le> \<lfloor>z\<rfloor>" by simp
  with round_half_even_floor(2)[of y] round_half_even_floor(1)[of z] show ?thesis by linarith
qed

lemma round_half_even_ge: "of_int k \<le> q \<Longrightarrow> k \<le> round_half_even q"
  using round_half_even_mono[of "of_int k" q] by simp

lemma round_half_even_le: "q \<le> of_int k \<Longrightarrow> round_half_even q \<le> k"
  using round_half_even_mono[of q "of_int k"] by simp

lemma binade:
  assumes "x \<noteq> 0"
  shows "2 powr of_int \<lfloor>log 2 \<bar>x\<bar>\<rfloor> \<le> \<bar>x\<bar>" "\<bar>x\<bar> < 2 powr (of_int \<lfloor>log 2 \<bar>x\<bar>\<rfloor> + 1)"
proof -
  have p: "0 < \<bar>x\<bar>" using assms by simp
  have l: "of_int \<lfloor>log 2 \<bar>x\<bar>\<rfloor> \<le> log 2 \<bar>x\<bar>" by (rule of_int_floor_le)
  show "2 powr of_int \<lfloor>log 2 \<bar>x\<bar>\<rfloor> \<le> \<bar>x\<bar>"
    by (rule iffD1[OF le_log_iff[OF _ p] l]) simp
  have u: "log 2 \<bar>x\<bar> < of_int \<lfloor>log 2 \<bar>x\<bar>\<rfloor> + 1" by linarith
  show "\<bar>x\<bar> < 2 powr (of_int \<lfloor>log 2 \<bar>x\<bar>\<rfloor> + 1)"
    by (rule iffD1[OF log_less_iff[OF _ p] u]) simp
qed

lemma binade_unique:
  assumes "2 powr of_int e \<le> \<bar>x\<bar>" and "\<bar>x\<bar> < 2 powr (of_int e + 1)"
  shows "\<lfloor>log 2 \<bar>x\<bar>\<rfloor> = e"
proof -
  have "(0::real) < 2 powr of_int e" by simp
  with assms(1) have p: "0 < \<bar>x\<bar>" by linarith
  have "of_int e \<le> log 2 \<bar>x\<bar>"
    by (rule iffD2[OF le_log_iff[OF _ p] assms(1)]) simp
  moreover have "log 2 \<bar>x\<bar> < of_int e + 1"
    by (rule iffD2[OF log_less_iff[OF _ p] assms(2)]) simp
  ultimately show ?thesis by linarith
qed

lemma round_half_even_numeral [simp]:
  "round_half_even (numeral k) = numeral k" "round_half_even (- numeral k) = - numeral k"
  using round_half_even_of_int[of "numeral k"] round_half_even_of_int[of "- numeral k"]
  by simp_all

lemma binary64_unfold:
  assumes "x \<noteq> 0"
  shows "binary64 x = of_int (round_half_even (x / 2 powr (of_int \<lfloor>log 2 \<bar>x\<bar>\<rfloor> - 52)))
                        * 2 powr (of_int \<lfloor>log 2 \<bar>x\<bar>\<rfloor> - 52)"
  using assms by (simp add: binary64_def Let_def)

lemma ulp_scale:
  "2 powr of_int e / 2 powr (of_int e - 52) = (2::real) ^ 52"
  "2 powr (of_int e + 1) / 2 powr (of_int e - 52) = (2::real) ^ 53"
proof -
  have "2 powr of_int e / 2 powr (of_int e - 52) = (2::real) powr 52"
    by (simp add: powr_diff[symmetric])
  then show "2 powr of_int e / 2 powr (of_int e - 52) = (2::real) ^ 52" by simp
  have "2 powr (of_int e + 1) / 2 powr (of_int e - 52) = (2::real) powr 53"
    by (simp add: powr_diff[symmetric])
  then show "2 powr (of_int e + 1) / 2 powr (of_int e - 52) = (2::real) ^ 53" by simp
qed

lemma binary64_pos_bounds:
  assumes "0 < x"
  shows "2 powr of_int \<lfloor>log 2 x\<rfloor> \<le> binary64 x" "binary64 x \<le> 2 powr (of_int \<lfloor>log 2 x\<rfloor> + 1)"
proof -
  define e where "e = \<lfloor>log 2 x\<rfloor>"
  define u :: real where "u = 2 powr (of_int e - 52)"
  have u: "0 < u" by (simp add: u_def)
  have nz: "x \<noteq> 0" using assms by simp
  have ax: "\<bar>x\<bar> = x" using assms by simp
  from binade[OF nz] have lo: "2 powr of_int e \<le> x" and hi: "x < 2 powr (of_int e + 1)"
    by (simp_all add: ax e_def)
  have b: "binary64 x = of_int (round_half_even (x / u)) * u"
    using binary64_unfold[OF nz] by (simp add: ax e_def u_def)
  have "2 powr of_int e / u \<le> x / u" using lo u by (simp add: divide_right_mono)
  then have "of_int (2 ^ 52) \<le> x / u" by (simp add: u_def ulp_scale)
  then have "2 ^ 52 \<le> round_half_even (x / u)" by (rule round_half_even_ge)
  then have "(of_int (2 ^ 52) :: real) \<le> of_int (round_half_even (x / u))"
    by (simp only: of_int_le_iff)
  then have "(2::real) ^ 52 \<le> of_int (round_half_even (x / u))" by simp
  then have "2 ^ 52 * u \<le> of_int (round_half_even (x / u)) * u"
    using u by (simp add: mult_right_mono)
  moreover have "2 ^ 52 * u = 2 powr of_int e"
    using ulp_scale(1)[of e] u by (simp add: u_def field_simps)
  ultimately show "2 powr of_int \<lfloor>log 2 x\<rfloor> \<le> binary64 x" by (simp add: b e_def)
  have "x / u \<le> 2 powr (of_int e + 1) / u" using hi u by (simp add: divide_right_mono)
  then have "x / u \<le> of_int (2 ^ 53)" by (simp add: u_def ulp_scale)
  then have "round_half_even (x / u) \<le> 2 ^ 53" by (rule round_half_even_le)
  then have "of_int (round_half_even (x / u)) \<le> (of_int (2 ^ 53) :: real)"
    by (simp only: of_int_le_iff)
  then have "of_int (round_half_even (x / u)) \<le> (2::real) ^ 53" by simp
  then have "of_int (round_half_even (x / u)) * u \<le> 2 ^ 53 * u"
    using u by (simp add: mult_right_mono)
  moreover have "2 ^ 53 * u = 2 powr (of_int e + 1)"
    using ulp_scale(2)[of e] u by (simp add: u_def field_simps)
  ultimately show "binary64 x \<le> 2 powr (of_int \<lfloor>log 2 x\<rfloor> + 1)" by (simp add: b e_def)
qed

lemma binary64_neg_bounds:
  assumes "x < 0"
  shows "- (2 powr (of_int \<lfloor>log 2 (- x)\<rfloor> + 1)) \<le> binary64 x"
    "binary64 x \<le> - (2 powr of_int \<lfloor>log 2 (- x)\<rfloor>)"
proof -
  define e where "e = \<lfloor>log 2 (- x)\<rfloor>"
  define u :: real where "u = 2 powr (of_int e - 52)"
  have u: "0 < u" by (simp add: u_def)
  have nz: "x \<noteq> 0" using assms by simp
  have ax: "\<bar>x\<bar> = - x" using assms by simp
  from binade[OF nz] have lo: "2 powr of_int e \<le> - x" and hi: "- x < 2 powr (of_int e + 1)"
    by (simp_all add: ax e_def)
  have b: "binary64 x = of_int (round_half_even (x / u)) * u"
    using binary64_unfold[OF nz] by (simp add: ax e_def u_def)
  have "x \<le> - (2 powr of_int e)" using lo by linarith
  then have "x / u \<le> (- (2 powr of_int e)) / u" using u by (intro divide_right_mono) simp_all
  then have "x / u \<le> of_int (- (2 ^ 52))" using ulp_scale(1)[of e] by (simp add: u_def)
  then have "round_half_even (x / u) \<le> - (2 ^ 52)" by (rule round_half_even_le)
  then have "of_int (round_half_even (x / u)) \<le> (of_int (- (2 ^ 52)) :: real)"
    by (simp only: of_int_le_iff)
  then have "of_int (round_half_even (x / u)) \<le> - ((2::real) ^ 52)" by simp
  then have "of_int (round_half_even (x / u)) * u \<le> - (2 ^ 52) * u"
    using u by (simp add: mult_right_mono del: mult_minus_left)
  moreover have "2 ^ 52 * u = 2 powr of_int e"
    using ulp_scale(1)[of e] u by (simp add: u_def field_simps)
  ultimately show "binary64 x \<le> - (2 powr of_int \<lfloor>log 2 (- x)\<rfloor>)" by (simp add: b e_def)
  have "- (2 powr (of_int e + 1)) \<le> x" using hi by linarith
  then have "(- (2 powr (of_int e + 1))) / u \<le> x / u" using u by (intro divide_right_mono) simp_all
  then have "of_int (- (2 ^ 53)) \<le> x / u" using ulp_scale(2)[of e] by (simp add: u_def)
  then have "- (2 ^ 53) \<le> round_half_even (x / u)" by (rule round_half_even_ge)
  then have "(of_int (- (2 ^ 53)) :: real) \<le> of_int (round_half_even (x / u))"
    by (simp only: of_int_le_iff)
  then have "- ((2::real) ^ 53) \<le> of_int (round_half_even (x / u))" by simp
  then have "- (2 ^ 53) * u \<le> of_int (round_half_even (x / u)) * u"
    using u by (simp add: mult_right_mono del: mult_minus_left)
  moreover have "2 ^ 53 * u = 2 powr (of_int e + 1)"
    using ulp_scale(2)[of e] u by (simp add: u_def field_simps)
  ultimately show "- (2 powr (of_int \<lfloor>log 2 (- x)\<rfloor> + 1)) \<le> binary64 x" by (simp add: b e_def)
qed

lemma binary64_pos: "0 < x \<Longrightarrow> 0 < binary64 x"
proof -
  assume "0 < x"
  from binary64_pos_bounds(1)[OF this] have "2 powr of_int \<lfloor>log 2 x\<rfloor> \<le> binary64 x" .
  moreover have "(0::real) < 2 powr of_int \<lfloor>log 2 x\<rfloor>" by simp
  ultimately show ?thesis by linarith
qed

lemma binary64_neg: "x < 0 \<Longrightarrow> binary64 x < 0"
proof -
  assume "x < 0"
  from binary64_neg_bounds(2)[OF this] have "binary64 x \<le> - (2 powr of_int \<lfloor>log 2 (- x)\<rfloor>)" .
  moreover have "(0::real) < 2 powr of_int \<lfloor>log 2 (- x)\<rfloor>" by simp
  ultimately show ?thesis by linarith
qed

lemma binary64_zero [simp]: "binary64 0 = 0"
  by (simp add: binary64_def)

lemma binary64_mono_pos:
  assumes "0 < x" and "x \<le> y"
  shows "binary64 x \<le> binary64 y"
proof -
  have y: "0 < y" using assms by linarith
  have le: "\<lfloor>log 2 x\<rfloor> \<le> \<lfloor>log 2 y\<rfloor>"
    using assms by (intro floor_mono) simp
  show ?thesis
  proof (cases "\<lfloor>log 2 x\<rfloor> = \<lfloor>log 2 y\<rfloor>")
    case True
    define u :: real where "u = 2 powr (of_int \<lfloor>log 2 y\<rfloor> - 52)"
    have u: "0 < u" by (simp add: u_def)
    have bx: "binary64 x = of_int (round_half_even (x / u)) * u"
      using binary64_unfold[of x] assms(1) True by (simp add: u_def)
    have by': "binary64 y = of_int (round_half_even (y / u)) * u"
      using binary64_unfold[of y] y by (simp add: u_def)
    have "x / u \<le> y / u" using assms(2) u by (simp add: divide_right_mono)
    then have "round_half_even (x / u) \<le> round_half_even (y / u)" by (rule round_half_even_mono)
    then have "(of_int (round_half_even (x / u)) :: real) \<le> of_int (round_half_even (y / u))"
      by (simp only: of_int_le_iff)
    then show ?thesis unfolding bx by' using u by (simp add: mult_right_mono)
  next
    case False
    with le have "\<lfloor>log 2 x\<rfloor> + 1 \<le> \<lfloor>log 2 y\<rfloor>" by simp
    then have "(of_int \<lfloor>log 2 x\<rfloor> :: real) + 1 \<le> of_int \<lfloor>log 2 y\<rfloor>" by linarith
    then have "(2::real) powr (of_int \<lfloor>log 2 x\<rfloor> + 1) \<le> 2 powr of_int \<lfloor>log 2 y\<rfloor>"
      by (intro powr_mono) simp_all
    with binary64_pos_bounds(2)[OF assms(1)] binary64_pos_bounds(1)[OF y]
    show ?thesis by linarith
  qed
qed

lemma binary64_mono_neg:
  assumes "y < 0" and "x \<le> y"
  shows "binary64 x \<le> binary64 y"
proof -
  have x: "x < 0" using assms by linarith
  have le: "\<lfloor>log 2 (- y)\<rfloor> \<le> \<lfloor>log 2 (- x)\<rfloor>"
    using assms by (intro floor_mono) simp
  show ?thesis
  proof (cases "\<lfloor>log 2 (- x)\<rfloor> = \<lfloor>log 2 (- y)\<rfloor>")
    case True
    define u :: real where "u = 2 powr (of_int \<lfloor>log 2 (- y)\<rfloor> - 52)"
    have u: "0 < u" by (simp add: u_def)
    have ax: "\<bar>x\<bar> = - x" and ay: "\<bar>y\<bar> = - y" using x assms(1) by simp_all
    have bx: "binary64 x = of_int (round_half_even (x / u)) * u"
      using binary64_unfold[of x] x True by (simp add: u_def ax)
    have by': "binary64 y = of_int (round_half_even (y / u)) * u"
      using binary64_unfold[of y] assms(1) by (simp add: u_def ay)
    have "x / u \<le> y / u" using assms(2) u by (simp add: divide_right_mono)
    then have "round_half_even (x / u) \<le> round_half_even (y / u)" by (rule round_half_even_mono)
    then have "(of_int (round_half_even (x / u)) :: real) \<le> of_int (round_half_even (y / u))"
      by (simp only: of_int_le_iff)
    then show ?thesis unfolding bx by' using u by (simp add: mult_right_mono)
  next
    case False
    with le have "\<lfloor>log 2 (- y)\<rfloor> + 1 \<le> \<lfloor>log 2 (- x)\<rfloor>" by simp
    then have "(of_int \<lfloor>log 2 (- y)\<rfloor> :: real) + 1 \<le> of_int \<lfloor>log 2 (- x)\<rfloor>" by linarith
    then have "(2::real) powr (of_int \<lfloor>log 2 (- y)\<rfloor> + 1) \<le> 2 powr of_int \<lfloor>log 2 (- x)\<rfloor>"
      by (intro powr_mono) simp_all
    with binary64_neg_bounds(2)[OF x] binary64_neg_bounds(1)[OF assms(1)]
    show ?thesis by linarith
  qed
qed

lemma binary64_mono:
  assumes "x \<le> y"
  shows "binary64 x \<le> binary64 y"
proof -
  consider "0 < x" | "y < 0" | "x \<le> 0" "0 \<le> y" by linarith
  then show ?thesis
  proof cases
    case 1
    then show ?thesis using assms by (rule binary64_mono_pos)
  next
    case 2
    then show ?thesis using assms by (rule binary64_mono_neg)
  next
    case 3
    have "binary64 x \<le> 0"
      using 3(1) binary64_neg[of x] by (cases "x = 0") auto
    moreover have "0 \<le> binary64 y"
      using 3(2) binary64_pos[of y] by (cases "y = 0") auto
    ultimately show ?thesis by linarith
  qed
qed

lemma binary64_at:
  assumes "2 ^ n \<le> \<bar>x\<bar>" and "\<bar>x\<bar> < 2 ^ Suc n"
  shows "binary64 x = of_int (round_half_even (x * 2 ^ 52 / 2 ^ n)) * 2 ^ n / 2 ^ 52"
proof -
  have p: "(2::real) powr of_int (int n) = 2 ^ n"
    by (simp add: powr_realpow)
  have q: "(2::real) powr (of_int (int n) + 1) = 2 ^ Suc n"
    using powr_realpow[of 2 "Suc n"] by (simp add: add.commute)
  have e: "\<lfloor>log 2 \<bar>x\<bar>\<rfloor> = int n"
    by (rule binade_unique) (use assms p q in simp_all)
  have "(0::real) < 2 ^ n" by simp
  with assms(1) have "0 < \<bar>x\<bar>" by linarith
  then have nz: "x \<noteq> 0" by simp
  have u: "(2::real) powr (of_int (int n) - 52) = 2 ^ n / 2 ^ 52"
    using p by (simp add: powr_diff)
  show ?thesis
    unfolding binary64_unfold[OF nz] e u by (simp add: field_simps)
qed

section \<open>The scheduler: proofs\<close>

text \<open>
  A statement with a free rounding \<open>rd\<close> holds for every rounding, so for \<open>exact\<close> and
  for \<open>binary64\<close>.
\<close>

lemma run_reset:
  assumes "spiraling (updateInfo g) > 1"
  shows "run rd speed g t =
           Returned (g\<lparr>updateInfo :=
               (if lastTimestamp (updateInfo g) > 0
                then (updateInfo g)\<lparr>realDelta := fsub rd t (lastTimestamp (updateInfo g))\<rparr>
                else updateInfo g)\<lparr>lastTimestamp := t, deltaTime := 0, spiraling := 0\<rparr>\<rparr>,
             [Update (tick_delta rd g t) (fmul rd (tick_delta rd g t) (rd 0.001))])"
  using assms by (simp add: run_def Let_def tick_delta_def)

lemma catch_up_exit:
  assumes "catch_up rd ui evs = Some r"
  shows "deltaTime (fst r) < step (fst r) \<and> spiraling (fst r) = spiraling ui \<and>
         lastCount (fst r) = lastCount ui \<and> step (fst r) = step ui \<and>
         lastTimestamp (fst r) = lastTimestamp ui \<and> realDelta (fst r) = realDelta ui \<and>
         count ui \<le> count (fst r) \<and>
         length (filter is_fixed (snd r)) + count ui =
           length (filter is_fixed evs) + count (fst r)"
  using assms
proof (induction rd ui evs r rule: catch_up.raw_induct [rotated 1, consumes 1, case_names body])
  case (body loop rd ui evs r)
  show ?case
  proof (cases "deltaTime ui \<ge> step ui")
    case True
    with body(2) have "loop rd (ui\<lparr>deltaTime := fsub rd (deltaTime ui) (step ui), count := count ui + 1\<rparr>)
             (evs @ [FixedUpdate (slowStep ui) (slowStepSec ui)]) = Some r" by simp
    from body(1)[OF this] show ?thesis by simp
  next
    case False
    with body(2) show ?thesis by auto
  qed
qed

lemma run_else:
  assumes sp: "\<not> spiraling (updateInfo g) > 1"
    and r: "run rd speed g t = Returned (g', evs)"
  shows "desiredFPS g' = desiredFPS g \<and>
         lastCount (updateInfo g') = count (updateInfo g') \<and>
         deltaTime (updateInfo g') < fdiv rd 1000 (desiredFPS g) \<and>
         length (filter is_fixed evs) = count (updateInfo g') \<and>
         spiraling (updateInfo g') =
           (if count (updateInfo g') > lastCount (updateInfo g)
            then spiraling (updateInfo g) + 1
            else if count (updateInfo g') < lastCount (updateInfo g) then 0
            else spiraling (updateInfo g))"
proof -
  define ui7 where "ui7 = (if lastTimestamp (updateInfo g) > 0
       then (updateInfo g)\<lparr>realDelta := fsub rd t (lastTimestamp (updateInfo g))\<rparr>
       else updateInfo g)\<lparr>lastTimestamp := t, step := fdiv rd 1000 (desiredFPS g),
       slowStep := fmul rd (fdiv rd 1000 (desiredFPS g)) speed,
       slowStepSec := Some (fmul rd (fmul rd (fdiv rd 1000 (desiredFPS g)) (rd 0.001)) speed),
       deltaTime := credited rd g t, count := 0\<rparr>"
  have nz: "desiredFPS g \<noteq> 0"
  proof
    assume z: "desiredFPS g = 0"
    have "run rd speed g t = NonFinite" using sp z by (simp add: run_def Let_def)
    with r show False by simp
  qed
  have e: "run rd speed g t =
      (case catch_up rd ui7 [] of None \<Rightarrow> Diverged
       | Some (ui8, evs) \<Rightarrow>
           (let ui9 = (if count ui8 > lastCount ui8
                       then ui8\<lparr>spiraling := spiraling ui8 + 1\<rparr>
                       else if count ui8 < lastCount ui8
                       then ui8\<lparr>spiraling := 0\<rparr>
                       else ui8);
                ui10 = ui9\<lparr>lastCount := count ui9\<rparr>
            in Returned (g\<lparr>updateInfo := ui10\<rparr>,
                 evs @ [Update (realDelta ui10) (fmul rd (realDelta ui10) (rd 0.001))])))"
    using sp nz
    by (simp add: run_def Let_def ui7_def credited_def tick_delta_def)
  have "catch_up rd ui7 [] \<noteq> None"
  proof
    assume "catch_up rd ui7 [] = None"
    with e have "run rd speed g t = Diverged" by simp
    with r show False by simp
  qed
  then obtain ui8 evs8 where c: "catch_up rd ui7 [] = Some (ui8, evs8)"
    by (cases "catch_up rd ui7 []") auto
  from catch_up_exit[OF c] have x: "deltaTime ui8 < step ui8" "spiraling ui8 = spiraling ui7"
    "lastCount ui8 = lastCount ui7" "step ui8 = step ui7"
    "length (filter is_fixed evs8) = count ui8"
    by (simp_all add: ui7_def)
  define ui9 where "ui9 = (if count ui8 > lastCount ui8
                       then ui8\<lparr>spiraling := spiraling ui8 + 1\<rparr>
                       else if count ui8 < lastCount ui8
                       then ui8\<lparr>spiraling := 0\<rparr>
                       else ui8)"
  have "run rd speed g t = Returned (g\<lparr>updateInfo := ui9\<lparr>lastCount := count ui9\<rparr>\<rparr>,
           evs8 @ [Update (realDelta ui9) (fmul rd (realDelta ui9) (rd 0.001))])"
    unfolding e c by (simp add: Let_def ui9_def)
  with r have g': "g' = g\<lparr>updateInfo := ui9\<lparr>lastCount := count ui9\<rparr>\<rparr>"
    and evs: "evs = evs8 @ [Update (realDelta ui9) (fmul rd (realDelta ui9) (rd 0.001))]" by simp_all
  have f9: "count ui9 = count ui8" "deltaTime ui9 = deltaTime ui8"
    "spiraling ui9 = (if count ui8 > lastCount ui8 then spiraling ui8 + 1
                      else if count ui8 < lastCount ui8 then 0 else spiraling ui8)"
    by (simp_all add: ui9_def)
  have f7: "spiraling ui7 = spiraling (updateInfo g)" "lastCount ui7 = lastCount (updateInfo g)"
    "step ui7 = fdiv rd 1000 (desiredFPS g)"
    by (simp_all add: ui7_def)
  have "desiredFPS g' = desiredFPS g" by (simp add: g')
  moreover have "lastCount (updateInfo g') = count (updateInfo g')" by (simp add: g')
  moreover have "deltaTime (updateInfo g') < fdiv rd 1000 (desiredFPS g)"
    using x(1,4) f7(3) by (simp add: g' f9)
  moreover have "length (filter is_fixed evs) = count (updateInfo g')"
    using x(5) by (simp add: g' evs f9)
  moreover have "spiraling (updateInfo g') =
           (if count (updateInfo g') > lastCount (updateInfo g)
            then spiraling (updateInfo g) + 1
            else if count (updateInfo g') < lastCount (updateInfo g) then 0
            else spiraling (updateInfo g))"
    using x(2,3) f7(1,2) by (simp add: g' f9)
  ultimately show ?thesis by blast
qed

lemma run_reset_fields:
  assumes sp: "spiraling (updateInfo g) > 1"
    and r: "run rd speed g t = Returned (g', evs)"
  shows "desiredFPS g' = desiredFPS g \<and> deltaTime (updateInfo g') = 0 \<and>
         spiraling (updateInfo g') = 0 \<and> count (updateInfo g') = count (updateInfo g) \<and>
         lastCount (updateInfo g') = lastCount (updateInfo g) \<and> filter is_fixed evs = []"
  using r unfolding run_reset[OF sp] by auto

lemma run_settled:
  assumes "run rd speed g t = Returned (g', evs)" and "settled g"
  shows "settled g' \<and> desiredFPS g' = desiredFPS g"
proof (cases "spiraling (updateInfo g) > 1")
  case True
  from run_reset_fields[OF True assms(1)] assms(2) show ?thesis by (simp add: settled_def)
next
  case False
  from run_else[OF False assms(1)] assms(2) show ?thesis by (simp add: settled_def)
qed

lemma run_pending:
  assumes "run rd speed g t = Returned (g', evs)" and "0 < fdiv rd 1000 (desiredFPS g)"
  shows "deltaTime (updateInfo g') < fdiv rd 1000 (desiredFPS g)"
proof (cases "spiraling (updateInfo g) > 1")
  case True
  from run_reset_fields[OF True assms(1)] assms(2) show ?thesis by simp
next
  case False
  from run_else[OF False assms(1)] show ?thesis by simp
qed

lemma run_fps:
  assumes "run rd speed g t = Returned (g', evs)"
  shows "desiredFPS g' = desiredFPS g"
proof (cases "spiraling (updateInfo g) > 1")
  case True
  from run_reset_fields[OF True assms] show ?thesis by simp
next
  case False
  from run_else[OF False assms] show ?thesis by simp
qed

lemma runs_settled:
  "runs rd speed g ts = Returned g' \<Longrightarrow> settled g \<Longrightarrow> settled g' \<and> desiredFPS g' = desiredFPS g"
proof (induction ts arbitrary: g)
  case Nil
  then show ?case by simp
next
  case (Cons t ts)
  from Cons.prems(1) obtain g1 e1 where r: "run rd speed g t = Returned (g1, e1)"
    and rs: "runs rd speed g1 ts = Returned g'"
    by (auto split: outcome.splits)
  from run_settled[OF r Cons.prems(2)] Cons.IH[OF rs] show ?case by simp
qed

lemma runs_pending:
  "runs rd speed g ts = Returned g' \<Longrightarrow> 0 < fdiv rd 1000 (desiredFPS g) \<Longrightarrow>
   deltaTime (updateInfo g) < fdiv rd 1000 (desiredFPS g) \<Longrightarrow>
   deltaTime (updateInfo g') < fdiv rd 1000 (desiredFPS g) \<and> desiredFPS g' = desiredFPS g"
proof (induction ts arbitrary: g)
  case Nil
  then show ?case by simp
next
  case (Cons t ts)
  from Cons.prems(1) obtain g1 e1 where r: "run rd speed g t = Returned (g1, e1)"
    and rs: "runs rd speed g1 ts = Returned g'"
    by (auto split: outcome.splits)
  have d: "desiredFPS g1 = desiredFPS g" using r by (rule run_fps)
  from run_pending[OF r Cons.prems(2)] Cons.IH[OF rs] Cons.prems(2) d show ?case by simp
qed

lemma catch_up_bounded:
  assumes mono: "\<And>x y. x \<le> y \<Longrightarrow> rd x \<le> rd y"
  shows "deltaTime ui \<le> U \<Longrightarrow> ((\<lambda>d. fsub rd d (step ui)) ^^ n) U < step ui \<Longrightarrow>
         \<exists>ui' evs'. catch_up rd ui evs = Some (ui', evs') \<and>
            length (filter is_fixed evs') \<le> length (filter is_fixed evs) + n"
proof (induction n arbitrary: ui evs U)
  case 0
  then have "\<not> deltaTime ui \<ge> step ui" by simp
  then have "catch_up rd ui evs = Some (ui, evs)" by (subst catch_up.simps) simp
  then show ?case by simp
next
  case (Suc n)
  show ?case
  proof (cases "deltaTime ui \<ge> step ui")
    case False
    then have "catch_up rd ui evs = Some (ui, evs)" by (subst catch_up.simps) simp
    then show ?thesis by simp
  next
    case True
    let ?ui1 = "ui\<lparr>deltaTime := fsub rd (deltaTime ui) (step ui), count := count ui + 1\<rparr>"
    let ?evs1 = "evs @ [FixedUpdate (slowStep ui) (slowStepSec ui)]"
    have c: "catch_up rd ui evs = catch_up rd ?ui1 ?evs1"
      using True by (subst catch_up.simps) simp
    have le: "deltaTime ?ui1 \<le> fsub rd U (step ui)"
      using Suc.prems(1) by (simp add: fsub_def mono)
    have "((\<lambda>d. fsub rd d (step ?ui1)) ^^ n) (fsub rd U (step ui)) < step ?ui1"
      using Suc.prems(2) funpow_swap1[of "\<lambda>d. fsub rd d (step ui)" n U] by simp
    from Suc.IH[OF le this, of ?evs1] obtain ui' evs' where
      "catch_up rd ?ui1 ?evs1 = Some (ui', evs')"
      "length (filter is_fixed evs') \<le> length (filter is_fixed ?evs1) + n" by blast
    with c show ?thesis by auto
  qed
qed

lemma run_bounded:
  assumes mono: "\<And>x y. x \<le> y \<Longrightarrow> rd x \<le> rd y"
    and sp: "\<not> spiraling (updateInfo g) > 1"
    and nz: "desiredFPS g \<noteq> 0"
    and le: "credited rd g t \<le> U"
    and bound: "((\<lambda>d. fsub rd d (fdiv rd 1000 (desiredFPS g))) ^^ n) U < fdiv rd 1000 (desiredFPS g)"
  shows "\<exists>g' evs. run rd speed g t = Returned (g', evs) \<and> length (filter is_fixed evs) \<le> n"
proof -
  define ui7 where "ui7 = (if lastTimestamp (updateInfo g) > 0
       then (updateInfo g)\<lparr>realDelta := fsub rd t (lastTimestamp (updateInfo g))\<rparr>
       else updateInfo g)\<lparr>lastTimestamp := t, step := fdiv rd 1000 (desiredFPS g),
       slowStep := fmul rd (fdiv rd 1000 (desiredFPS g)) speed,
       slowStepSec := Some (fmul rd (fmul rd (fdiv rd 1000 (desiredFPS g)) (rd 0.001)) speed),
       deltaTime := credited rd g t, count := 0\<rparr>"
  have e: "run rd speed g t =
      (case catch_up rd ui7 [] of None \<Rightarrow> Diverged
       | Some (ui8, evs) \<Rightarrow>
           (let ui9 = (if count ui8 > lastCount ui8
                       then ui8\<lparr>spiraling := spiraling ui8 + 1\<rparr>
                       else if count ui8 < lastCount ui8
                       then ui8\<lparr>spiraling := 0\<rparr>
                       else ui8);
                ui10 = ui9\<lparr>lastCount := count ui9\<rparr>
            in Returned (g\<lparr>updateInfo := ui10\<rparr>,
                 evs @ [Update (realDelta ui10) (fmul rd (realDelta ui10) (rd 0.001))])))"
    using sp nz
    by (simp add: run_def Let_def ui7_def credited_def tick_delta_def)
  have d7: "deltaTime ui7 \<le> U" using le by (simp add: ui7_def)
  have s7: "step ui7 = fdiv rd 1000 (desiredFPS g)" by (simp add: ui7_def)
  have b7: "((\<lambda>d. fsub rd d (step ui7)) ^^ n) U < step ui7"
    unfolding s7 by (rule bound)
  from catch_up_bounded[of rd ui7 U n "[]", OF mono d7 b7] obtain ui8 evs8 where
    c: "catch_up rd ui7 [] = Some (ui8, evs8)" and l: "length (filter is_fixed evs8) \<le> n"
    by auto
  define ui9 where "ui9 = (if count ui8 > lastCount ui8
                       then ui8\<lparr>spiraling := spiraling ui8 + 1\<rparr>
                       else if count ui8 < lastCount ui8
                       then ui8\<lparr>spiraling := 0\<rparr>
                       else ui8)"
  have "run rd speed g t = Returned (g\<lparr>updateInfo := ui9\<lparr>lastCount := count ui9\<rparr>\<rparr>,
           evs8 @ [Update (realDelta ui9) (fmul rd (realDelta ui9) (rd 0.001))])"
    unfolding e c by (simp add: Let_def ui9_def)
  moreover have "length (filter is_fixed
      (evs8 @ [Update (realDelta ui9) (fmul rd (realDelta ui9) (rd 0.001))])) \<le> n"
    using l by simp
  ultimately show ?thesis by blast
qed

text \<open>
  The doubles of a tick at 60 frames per second: the step \<open>1000 / 60\<close>, the credit of
  three steps, which is 50, and what the loop leaves of the largest accumulator that a
  tick can start its loop with.
\<close>

lemma step_60:
  "fdiv binary64 1000 60 = 4691249611844267 / 281474976710656"
  unfolding fdiv_def by (subst binary64_at[of 4]) (simp_all add: round_half_even_def)

lemma credit_60:
  "fmul binary64 (4691249611844267 / 281474976710656) 3 = 50"
  unfolding fmul_def by (subst binary64_at[of 5]) (simp_all add: round_half_even_def)

lemma loop_60:
  "fadd binary64 (4691249611844267 / 281474976710656) 50 = 4691249611844267 / 70368744177664"
  "fsub binary64 (4691249611844267 / 70368744177664) (4691249611844267 / 281474976710656) = 50"
  "fsub binary64 50 (4691249611844267 / 281474976710656) = 2345624805922133 / 70368744177664"
  "fsub binary64 (2345624805922133 / 70368744177664) (4691249611844267 / 281474976710656)
     = 4691249611844265 / 281474976710656"
proof -
  show "fadd binary64 (4691249611844267 / 281474976710656) 50 = 4691249611844267 / 70368744177664"
    unfolding fadd_def by (subst binary64_at[of 6]) (simp_all add: round_half_even_def)
  show "fsub binary64 (4691249611844267 / 70368744177664) (4691249611844267 / 281474976710656) = 50"
    unfolding fsub_def by (subst binary64_at[of 5]) (simp_all add: round_half_even_def)
  show "fsub binary64 50 (4691249611844267 / 281474976710656) = 2345624805922133 / 70368744177664"
    unfolding fsub_def by (subst binary64_at[of 5]) (simp_all add: round_half_even_def)
  show "fsub binary64 (2345624805922133 / 70368744177664) (4691249611844267 / 281474976710656)
     = 4691249611844265 / 281474976710656"
    unfolding fsub_def by (subst binary64_at[of 4]) (simp_all add: round_half_even_def)
qed

text \<open>
  C4. A tick of a game with \<open>desiredFPS = 60\<close> whose accumulator \<open>deltaTime\<close> is below one
  step (\<open>1000 / 60\<close>) and whose \<open>realDelta\<close> for this tick is 1000 ms returns, and calls
  the fixed-update callback at most 3 times: the credit added is capped at 3 steps. This
  holds in exact arithmetic and in the arithmetic of doubles.
\<close>

theorem run_catch_up_bound:
  assumes rd: "rd = exact \<or> rd = binary64"
    and fps: "desiredFPS g = 60"
    and below: "deltaTime (updateInfo g) < fdiv rd 1000 60"
    and delta: "tick_delta rd g timestamp = 1000"
  shows "\<exists>g' evs. run rd speed g timestamp = Returned (g', evs) \<and>
           length (filter is_fixed evs) \<le> 3"
proof (cases "spiraling (updateInfo g) > 1")
  case True
  show ?thesis unfolding run_reset[OF True] by simp
next
  case False
  have nz: "desiredFPS g \<noteq> 0" using fps by simp
  from rd show ?thesis
  proof
    assume ex: "rd = exact"
    have mono: "\<And>x y. x \<le> y \<Longrightarrow> exact x \<le> exact y" by simp
    have c: "credited exact g timestamp = deltaTime (updateInfo g) + 50"
      using delta fps by (simp add: credited_def ex)
    have "((\<lambda>d. fsub exact d (fdiv exact 1000 (desiredFPS g))) ^^ 3) (credited exact g timestamp)
            < fdiv exact 1000 (desiredFPS g)"
      using below by (simp add: c fps ex numeral_3_eq_3)
    from run_bounded[of exact, OF mono False nz order_refl this] show ?thesis
      unfolding ex .
  next
    assume b: "rd = binary64"
    let ?S = "4691249611844267 / 281474976710656 :: real"
    have s: "fdiv binary64 1000 (desiredFPS g) = ?S" unfolding fps by (rule step_60)
    have "credited binary64 g timestamp =
            fadd binary64 (deltaTime (updateInfo g)) (max (min 50 1000) 0)"
      using delta unfolding credited_def s credit_60 b by simp
    then have c: "credited binary64 g timestamp = binary64 (deltaTime (updateInfo g) + 50)"
      by (simp add: fadd_def)
    have "deltaTime (updateInfo g) + 50 \<le> ?S + 50"
      using below unfolding b step_60 by simp
    then have le: "credited binary64 g timestamp \<le> fadd binary64 ?S 50"
      unfolding c fadd_def by (rule binary64_mono)
    have "((\<lambda>d. fsub binary64 d ?S) ^^ 3) (fadd binary64 ?S 50) < ?S"
      by (simp add: numeral_3_eq_3 loop_60)
    then have bound: "((\<lambda>d. fsub binary64 d (fdiv binary64 1000 (desiredFPS g))) ^^ 3)
                        (fadd binary64 ?S 50) < fdiv binary64 1000 (desiredFPS g)"
      unfolding s .
    from run_bounded[of binary64, OF binary64_mono False nz le bound] show ?thesis
      unfolding b .
  qed
qed

theorem run_catch_up_bound_witness:
  "desiredFPS (Game_new\<lparr>updateInfo := (updateInfo Game_new)\<lparr>lastTimestamp := 1000\<rparr>\<rparr>) = 60 \<and>
   deltaTime (updateInfo (Game_new\<lparr>updateInfo := (updateInfo Game_new)\<lparr>lastTimestamp := 1000\<rparr>\<rparr>))
     < fdiv binary64 1000 60 \<and>
   tick_delta binary64 (Game_new\<lparr>updateInfo := (updateInfo Game_new)\<lparr>lastTimestamp := 1000\<rparr>\<rparr>) 2000
     = 1000 \<and>
   (\<exists>g' evs. run binary64 1 (Game_new\<lparr>updateInfo := (updateInfo Game_new)\<lparr>lastTimestamp := 1000\<rparr>\<rparr>) 2000
        = Returned (g', evs) \<and> length (filter is_fixed evs) \<le> 3) \<and>
   run exact 1 (Game_new\<lparr>updateInfo := (updateInfo Game_new)\<lparr>lastTimestamp := 1000\<rparr>\<rparr>) 2000 =
     Returned
       (\<lparr>desiredFPS = 60,
          updateInfo =
            \<lparr>spiraling = 1, lastTimestamp = 2000, realDelta = 1000, deltaTime = 0,
              info_desiredFPS = 30, lastCount = 3, step = 50 / 3, slowStep = 50 / 3,
              count = 3, slowStepSec = Some (1 / 60)\<rparr>\<rparr>,
        [FixedUpdate (50 / 3) (Some (1 / 60)), FixedUpdate (50 / 3) (Some (1 / 60)),
         FixedUpdate (50 / 3) (Some (1 / 60)), Update 1000 1])"
proof -
  let ?g = "Game_new\<lparr>updateInfo := (updateInfo Game_new)\<lparr>lastTimestamp := 1000\<rparr>\<rparr>"
  have a: "desiredFPS ?g = 60" by (simp add: Game_new_def)
  have b: "deltaTime (updateInfo ?g) < fdiv binary64 1000 60"
    unfolding step_60 by (simp add: Game_new_def)
  have "binary64 1000 = 1000"
    by (subst binary64_at[of 9]) (simp_all add: round_half_even_def)
  then have c: "tick_delta binary64 ?g 2000 = 1000"
    by (simp add: tick_delta_def fsub_def Game_new_def)
  have e: "run exact 1 ?g 2000 =
     Returned
       (\<lparr>desiredFPS = 60,
          updateInfo =
            \<lparr>spiraling = 1, lastTimestamp = 2000, realDelta = 1000, deltaTime = 0,
              info_desiredFPS = 30, lastCount = 3, step = 50 / 3, slowStep = 50 / 3,
              count = 3, slowStepSec = Some (1 / 60)\<rparr>\<rparr>,
        [FixedUpdate (50 / 3) (Some (1 / 60)), FixedUpdate (50 / 3) (Some (1 / 60)),
         FixedUpdate (50 / 3) (Some (1 / 60)), Update 1000 1])"
    by (simp add: run_def Let_def Game_new_def catch_up.simps)
  from run_catch_up_bound[of binary64 ?g 2000 1, OF _ a b c] a b c e show ?thesis by simp
qed

text \<open>
  C5 (amended). The scheduler does not compare the fixed updates of consecutive ticks: it
  compares \<open>count\<close> with \<open>lastCount\<close>, and a tick that resets writes neither, so the
  \<open>count\<close> it leaves is that of the tick before it. In every run of the scheduler from a
  newly constructed game, with a \<open>desiredFPS\<close> other than 0 and in the arithmetic of any
  rounding: if on two consecutive ticks the stored \<open>count\<close> strictly increases, the tick
  after them returns having set the accumulator \<open>deltaTime\<close> and the spiral counter to
  0, without a fixed update. The pending time of such a run stays bounded as well: when
  the step \<open>1000 / desiredFPS\<close> is positive, \<open>deltaTime\<close> is below one step after every
  tick. (With \<open>desiredFPS = 0\<close> the step is an infinity and no tick of the model returns.)
\<close>

theorem spiral_reset:
  assumes fps: "fps \<noteq> 0"
    and reach: "runs rd speed (Game_new\<lparr>desiredFPS := fps\<rparr>) ts = Returned g0"
  shows "(0 < fdiv rd 1000 fps \<longrightarrow> deltaTime (updateInfo g0) < fdiv rd 1000 fps) \<and>
         (run rd speed g0 t1 = Returned (g1, e1) \<and> count (updateInfo g0) < count (updateInfo g1) \<and>
          run rd speed g1 t2 = Returned (g2, e2) \<and> count (updateInfo g1) < count (updateInfo g2)
          \<longrightarrow> (\<exists>g3 e3. run rd speed g2 t3 = Returned (g3, e3) \<and>
                 deltaTime (updateInfo g3) = 0 \<and> spiraling (updateInfo g3) = 0 \<and>
                 filter is_fixed e3 = []))"
proof (intro conjI impI)
  assume "0 < fdiv rd 1000 fps"
  with runs_pending[OF reach] show "deltaTime (updateInfo g0) < fdiv rd 1000 fps"
    by (simp add: Game_new_def)
next
  assume a: "run rd speed g0 t1 = Returned (g1, e1) \<and> count (updateInfo g0) < count (updateInfo g1) \<and>
          run rd speed g1 t2 = Returned (g2, e2) \<and> count (updateInfo g1) < count (updateInfo g2)"
  have s0: "settled g0" using runs_settled[OF reach] by (simp add: settled_def Game_new_def)
  from a have r1: "run rd speed g0 t1 = Returned (g1, e1)"
    and r2: "run rd speed g1 t2 = Returned (g2, e2)"
    and c1: "count (updateInfo g0) < count (updateInfo g1)"
    and c2: "count (updateInfo g1) < count (updateInfo g2)" by simp_all
  have s1: "settled g1" using run_settled[OF r1 s0] by simp
  have n1: "\<not> spiraling (updateInfo g0) > 1"
    using run_reset_fields[OF _ r1] c1 by auto
  have n2: "\<not> spiraling (updateInfo g1) > 1"
    using run_reset_fields[OF _ r2] c2 by auto
  have "spiraling (updateInfo g1) = spiraling (updateInfo g0) + 1"
    using run_else[OF n1 r1] c1 s0 by (simp add: settled_def)
  moreover have "spiraling (updateInfo g2) = spiraling (updateInfo g1) + 1"
    using run_else[OF n2 r2] c2 s1 by (simp add: settled_def)
  ultimately have "spiraling (updateInfo g2) > 1" using s0 by (simp add: settled_def)
  then show "\<exists>g3 e3. run rd speed g2 t3 = Returned (g3, e3) \<and>
                 deltaTime (updateInfo g3) = 0 \<and> spiraling (updateInfo g3) = 0 \<and>
                 filter is_fixed e3 = []"
    by (simp add: run_reset)
qed

theorem spiral_reset_witness:
  "\<exists>g0 g1 e1 g2 e2.
     runs exact 1 (Game_new\<lparr>desiredFPS := 60\<rparr>) [100] = Returned g0 \<and>
     0 < fdiv exact 1000 60 \<and> deltaTime (updateInfo g0) < fdiv exact 1000 60 \<and>
     run exact 1 g0 120 = Returned (g1, e1) \<and> count (updateInfo g0) < count (updateInfo g1) \<and>
     run exact 1 g1 160 = Returned (g2, e2) \<and> count (updateInfo g1) < count (updateInfo g2) \<and>
     (\<exists>g3 e3. run exact 1 g2 170 = Returned (g3, e3) \<and>
        deltaTime (updateInfo g3) = 0 \<and> spiraling (updateInfo g3) = 0 \<and>
        filter is_fixed e3 = [])"
proof -
  let ?g0 = "\<lparr>desiredFPS = 60,
     updateInfo =
       \<lparr>spiraling = 0, lastTimestamp = 100, realDelta = 0, deltaTime = 0,
          info_desiredFPS = 30, lastCount = 0, step = 50 / 3,
          slowStep = 50 / 3, count = 0, slowStepSec = Some (1 / 60)\<rparr>\<rparr>"
  let ?g1 = "\<lparr>desiredFPS = 60,
     updateInfo =
       \<lparr>spiraling = 1, lastTimestamp = 120, realDelta = 20, deltaTime = 10 / 3,
          info_desiredFPS = 30, lastCount = 1, step = 50 / 3,
          slowStep = 50 / 3, count = 1, slowStepSec = Some (1 / 60)\<rparr>\<rparr>"
  let ?e1 = "[FixedUpdate (50 / 3) (Some (1 / 60)), Update 20 (1 / 50)]"
  let ?g2 = "\<lparr>desiredFPS = 60,
     updateInfo =
       \<lparr>spiraling = 2, lastTimestamp = 160, realDelta = 40, deltaTime = 10,
          info_desiredFPS = 30, lastCount = 2, step = 50 / 3,
          slowStep = 50 / 3, count = 2, slowStepSec = Some (1 / 60)\<rparr>\<rparr>"
  let ?e2 = "[FixedUpdate (50 / 3) (Some (1 / 60)), FixedUpdate (50 / 3) (Some (1 / 60)),
              Update 40 (1 / 25)]"
  have r0: "runs exact 1 (Game_new\<lparr>desiredFPS := 60\<rparr>) [100] = Returned ?g0"
    by (simp add: run_def Let_def Game_new_def catch_up.simps)
  have r1: "run exact 1 ?g0 120 = Returned (?g1, ?e1)"
    by (simp add: run_def Let_def catch_up.simps)
  have r2: "run exact 1 ?g1 160 = Returned (?g2, ?e2)"
    by (simp add: run_def Let_def catch_up.simps)
  have c1: "count (updateInfo ?g0) < count (updateInfo ?g1)" by simp
  have c2: "count (updateInfo ?g1) < count (updateInfo ?g2)" by simp
  have p: "0 < fdiv exact 1000 60" by simp
  have nz: "(60::real) \<noteq> 0" by simp
  from spiral_reset[OF nz r0, of 120 ?g1 ?e1 160 ?g2 ?e2 170] r1 r2 c1 c2 p
  have q: "deltaTime (updateInfo ?g0) < fdiv exact 1000 60" and
    z: "\<exists>g3 e3. run exact 1 ?g2 170 = Returned (g3, e3) \<and>
           deltaTime (updateInfo g3) = 0 \<and> spiraling (updateInfo g3) = 0 \<and>
           filter is_fixed e3 = []"
    by blast+
  from r0 p q r1 c1 r2 c2 z show ?thesis by blast
qed

text \<open>
  The doubles of the ticks at 100, 120, 160, 170, 190, 230 and 231 ms of a new game.
\<close>

lemma stale_ticks:
  "fmul binary64 (4691249611844267 / 281474976710656) 1 = 4691249611844267 / 281474976710656"
  "fadd binary64 0 0 = 0"
  "fsub binary64 120 100 = 20"
  "fadd binary64 0 20 = 20"
  "fsub binary64 20 (4691249611844267 / 281474976710656) = 938249922368853 / 281474976710656"
  "fsub binary64 160 120 = 40"
  "fadd binary64 (938249922368853 / 281474976710656) 40 = 3049312247698773 / 70368744177664"
  "fsub binary64 (3049312247698773 / 70368744177664) (4691249611844267 / 281474976710656) = 7505999378950825 / 281474976710656"
  "fsub binary64 (7505999378950825 / 281474976710656) (4691249611844267 / 281474976710656) = 1407374883553279 / 140737488355328"
  "fsub binary64 170 160 = 10"
  "fsub binary64 190 170 = 20"
  "fsub binary64 230 190 = 40"
  "fsub binary64 231 230 = 1"
  "fadd binary64 (1407374883553279 / 140737488355328) 1 = 1548112371908607 / 140737488355328"
proof -
  show "fmul binary64 (4691249611844267 / 281474976710656) 1 = 4691249611844267 / 281474976710656"
    unfolding fmul_def by (subst binary64_at[of 4]) (simp_all add: round_half_even_def)
  show "fadd binary64 0 0 = 0" by (simp add: fadd_def)
  show "fsub binary64 120 100 = 20"
    unfolding fsub_def by (subst binary64_at[of 4]) (simp_all add: round_half_even_def)
  show "fadd binary64 0 20 = 20"
    unfolding fadd_def by (subst binary64_at[of 4]) (simp_all add: round_half_even_def)
  show "fsub binary64 20 (4691249611844267 / 281474976710656) = 938249922368853 / 281474976710656"
    unfolding fsub_def by (subst binary64_at[of 1]) (simp_all add: round_half_even_def)
  show "fsub binary64 160 120 = 40"
    unfolding fsub_def by (subst binary64_at[of 5]) (simp_all add: round_half_even_def)
  show "fadd binary64 (938249922368853 / 281474976710656) 40 = 3049312247698773 / 70368744177664"
    unfolding fadd_def by (subst binary64_at[of 5]) (simp_all add: round_half_even_def)
  show "fsub binary64 (3049312247698773 / 70368744177664) (4691249611844267 / 281474976710656) = 7505999378950825 / 281474976710656"
    unfolding fsub_def by (subst binary64_at[of 4]) (simp_all add: round_half_even_def)
  show "fsub binary64 (7505999378950825 / 281474976710656) (4691249611844267 / 281474976710656) = 1407374883553279 / 140737488355328"
    unfolding fsub_def by (subst binary64_at[of 3]) (simp_all add: round_half_even_def)
  show "fsub binary64 170 160 = 10"
    unfolding fsub_def by (subst binary64_at[of 3]) (simp_all add: round_half_even_def)
  show "fsub binary64 190 170 = 20"
    unfolding fsub_def by (subst binary64_at[of 4]) (simp_all add: round_half_even_def)
  show "fsub binary64 230 190 = 40"
    unfolding fsub_def by (subst binary64_at[of 5]) (simp_all add: round_half_even_def)
  show "fsub binary64 231 230 = 1"
    unfolding fsub_def by (subst binary64_at[of 0]) (simp_all add: round_half_even_def)
  show "fadd binary64 (1407374883553279 / 140737488355328) 1 = 1548112371908607 / 140737488355328"
    unfolding fadd_def by (subst binary64_at[of 3]) (simp_all add: round_half_even_def)
qed

theorem spiral_stale_count_counterexample:
  "\<exists>g0 g1 e1 g2 e2 g3 e3 g4 e4.
     runs binary64 1 Game_new [100, 120, 160] = Returned g0 \<and>
     run binary64 1 g0 170 = Returned (g1, e1) \<and> length (filter is_fixed e1) = 0 \<and>
     run binary64 1 g1 190 = Returned (g2, e2) \<and> length (filter is_fixed e2) = 1 \<and>
     run binary64 1 g2 230 = Returned (g3, e3) \<and> length (filter is_fixed e3) = 2 \<and>
     run binary64 1 g3 231 = Returned (g4, e4) \<and>
     deltaTime (updateInfo g4) = 1548112371908607 / 140737488355328"
proof -
  let ?sec = "Some (fmul binary64 (fmul binary64 (4691249611844267 / 281474976710656) (binary64 0.001)) 1)"
  let ?g100 = "\<lparr>desiredFPS = 60, updateInfo = \<lparr>spiraling = 0, lastTimestamp = 100, realDelta = 0,
       deltaTime = 0, info_desiredFPS = 30, lastCount = 0, step = 4691249611844267 / 281474976710656,
       slowStep = 4691249611844267 / 281474976710656, count = 0, slowStepSec = ?sec\<rparr>\<rparr>"
  let ?e100 = "[Update 0 (fmul binary64 0 (binary64 0.001))]"
  let ?g120 = "\<lparr>desiredFPS = 60, updateInfo = \<lparr>spiraling = 1, lastTimestamp = 120, realDelta = 20,
       deltaTime = 938249922368853 / 281474976710656, info_desiredFPS = 30, lastCount = 1, step = 4691249611844267 / 281474976710656,
       slowStep = 4691249611844267 / 281474976710656, count = 1, slowStepSec = ?sec\<rparr>\<rparr>"
  let ?e120 = "[FixedUpdate (4691249611844267 / 281474976710656) ?sec, Update 20 (fmul binary64 20 (binary64 0.001))]"
  let ?g160 = "\<lparr>desiredFPS = 60, updateInfo = \<lparr>spiraling = 2, lastTimestamp = 160, realDelta = 40,
       deltaTime = 1407374883553279 / 140737488355328, info_desiredFPS = 30, lastCount = 2, step = 4691249611844267 / 281474976710656,
       slowStep = 4691249611844267 / 281474976710656, count = 2, slowStepSec = ?sec\<rparr>\<rparr>"
  let ?e160 = "[FixedUpdate (4691249611844267 / 281474976710656) ?sec, FixedUpdate (4691249611844267 / 281474976710656) ?sec, Update 40 (fmul binary64 40 (binary64 0.001))]"
  let ?g170 = "\<lparr>desiredFPS = 60, updateInfo = \<lparr>spiraling = 0, lastTimestamp = 170, realDelta = 10,
       deltaTime = 0, info_desiredFPS = 30, lastCount = 2, step = 4691249611844267 / 281474976710656,
       slowStep = 4691249611844267 / 281474976710656, count = 2, slowStepSec = ?sec\<rparr>\<rparr>"
  let ?e170 = "[Update 10 (fmul binary64 10 (binary64 0.001))]"
  let ?g190 = "\<lparr>desiredFPS = 60, updateInfo = \<lparr>spiraling = 0, lastTimestamp = 190, realDelta = 20,
       deltaTime = 938249922368853 / 281474976710656, info_desiredFPS = 30, lastCount = 1, step = 4691249611844267 / 281474976710656,
       slowStep = 4691249611844267 / 281474976710656, count = 1, slowStepSec = ?sec\<rparr>\<rparr>"
  let ?e190 = "[FixedUpdate (4691249611844267 / 281474976710656) ?sec, Update 20 (fmul binary64 20 (binary64 0.001))]"
  let ?g230 = "\<lparr>desiredFPS = 60, updateInfo = \<lparr>spiraling = 1, lastTimestamp = 230, realDelta = 40,
       deltaTime = 1407374883553279 / 140737488355328, info_desiredFPS = 30, lastCount = 2, step = 4691249611844267 / 281474976710656,
       slowStep = 4691249611844267 / 281474976710656, count = 2, slowStepSec = ?sec\<rparr>\<rparr>"
  let ?e230 = "[FixedUpdate (4691249611844267 / 281474976710656) ?sec, FixedUpdate (4691249611844267 / 281474976710656) ?sec, Update 40 (fmul binary64 40 (binary64 0.001))]"
  let ?g231 = "\<lparr>desiredFPS = 60, updateInfo = \<lparr>spiraling = 0, lastTimestamp = 231, realDelta = 1,
       deltaTime = 1548112371908607 / 140737488355328, info_desiredFPS = 30, lastCount = 0, step = 4691249611844267 / 281474976710656,
       slowStep = 4691249611844267 / 281474976710656, count = 0, slowStepSec = ?sec\<rparr>\<rparr>"
  let ?e231 = "[Update 1 (fmul binary64 1 (binary64 0.001))]"
  have t100: "run binary64 1 Game_new 100 = Returned (?g100, ?e100)"
    by (simp add: run_def Let_def catch_up.simps step_60 credit_60 stale_ticks Game_new_def)
  have t120: "run binary64 1 ?g100 120 = Returned (?g120, ?e120)"
    by (simp add: run_def Let_def catch_up.simps step_60 credit_60 stale_ticks)
  have t160: "run binary64 1 ?g120 160 = Returned (?g160, ?e160)"
    by (simp add: run_def Let_def catch_up.simps step_60 credit_60 stale_ticks)
  have t170: "run binary64 1 ?g160 170 = Returned (?g170, ?e170)"
    by (simp add: run_def Let_def catch_up.simps step_60 credit_60 stale_ticks)
  have t190: "run binary64 1 ?g170 190 = Returned (?g190, ?e190)"
    by (simp add: run_def Let_def catch_up.simps step_60 credit_60 stale_ticks)
  have t230: "run binary64 1 ?g190 230 = Returned (?g230, ?e230)"
    by (simp add: run_def Let_def catch_up.simps step_60 credit_60 stale_ticks)
  have t231: "run binary64 1 ?g230 231 = Returned (?g231, ?e231)"
    by (simp add: run_def Let_def catch_up.simps step_60 credit_60 stale_ticks)
  have r: "runs binary64 1 Game_new [100, 120, 160] = Returned ?g160"
    by (simp only: runs.simps t100 t120 t160 outcome.case prod.case)
  have f: "length (filter is_fixed ?e170) = 0" "length (filter is_fixed ?e190) = 1"
    "length (filter is_fixed ?e230) = 2" by simp_all
  have d: "deltaTime (updateInfo ?g231) = 1548112371908607 / 140737488355328" by simp
  from r t170 f(1) t190 f(2) t230 f(3) t231 d show ?thesis by blast
qed

section \<open>The physics module: proofs\<close>

text \<open>
  As for the scheduler, a statement with a free rounding \<open>rd\<close> holds for every rounding.
\<close>

text \<open>
  C1 (amended). \<open>hitTest(a, b)\<close> raises \<open>TypeError\<close> when \<open>a.shape\<close> is \<open>null\<close>, and when
  \<open>b.shape\<close> is \<open>null\<close> while the shape of \<open>a\<close> has a non-zero width or radius; when
  \<open>b.shape\<close> is \<open>null\<close> and the shape of \<open>a\<close> has neither, it returns false. When both
  shapes are present, it returns false, without raising, if one of the two shapes has
  neither a non-zero \<open>width\<close> nor a non-zero \<open>radius\<close>, as is every object that has none
  of the properties of a Rectangle or a Circle.
\<close>

theorem hitTest_unknown_shape:
  "(shape a = None \<longrightarrow> hitTest rd a b = Inl TypeError) \<and>
   (shape a \<noteq> None \<and> shape b = None \<longrightarrow>
      hitTest rd a b =
        (if shape_has width a = Inr True \<or> shape_has radius a = Inr True
         then Inl TypeError else Inr False)) \<and>
   (shape a \<noteq> None \<and> shape b \<noteq> None \<and>
    (shape_has width a = Inr False \<and> shape_has radius a = Inr False \<or>
     shape_has width b = Inr False \<and> shape_has radius b = Inr False) \<longrightarrow>
      hitTest rd a b = Inr False)"
proof (intro conjI impI)
  assume "shape a = None"
  then show "hitTest rd a b = Inl TypeError"
    by (simp add: hitTest_def shape_has_def js_and_def)
next
  assume "shape a \<noteq> None \<and> shape b = None"
  then obtain sa where "shape a = Some sa" and "shape b = None" by auto
  then show "hitTest rd a b =
        (if shape_has width a = Inr True \<or> shape_has radius a = Inr True
         then Inl TypeError else Inr False)"
    by (auto simp: hitTest_def shape_has_def js_and_def js_or_def split: option.splits)
next
  assume h: "shape a \<noteq> None \<and> shape b \<noteq> None \<and>
    (shape_has width a = Inr False \<and> shape_has radius a = Inr False \<or>
     shape_has width b = Inr False \<and> shape_has radius b = Inr False)"
  then obtain sa sb where s: "shape a = Some sa" "shape b = Some sb" by auto
  from h have "shape_has width a = Inr False \<and> shape_has radius a = Inr False \<or>
     shape_has width b = Inr False \<and> shape_has radius b = Inr False" by simp
  then show "hitTest rd a b = Inr False"
  proof
    assume "shape_has width a = Inr False \<and> shape_has radius a = Inr False"
    then show ?thesis by (simp add: hitTest_def js_and_def js_or_def)
  next
    assume n: "shape_has width b = Inr False \<and> shape_has radius b = Inr False"
    obtain cw cr where c: "shape_has width a = Inr cw" "shape_has radius a = Inr cr"
      using s by (simp add: shape_has_def)
    show ?thesis by (simp add: hitTest_def js_and_def js_or_def n c)
  qed
qed

lemma hitTest_rect_rect:
  assumes "shape a = Some (Rectangle wa ha)" and "shape b = Some (Rectangle wb hb)"
  shows "hitTest rd a b = Inr (wa \<noteq> 0 \<and> wb \<noteq> 0 \<and> rect_overlap rd a b)"
  using assms by (simp add: hitTest_def shape_has_def js_and_def js_or_def)

lemma hitTest_circle_circle:
  assumes "shape a = Some (Circle ra)" and "shape b = Some (Circle rb)"
  shows "hitTest rd a b =
           Inr (ra \<noteq> 0 \<and> rb \<noteq> 0 \<and> fadd rd ra rb > Vector_distance rd (position a) (position b))"
  using assms by (simp add: hitTest_def shape_has_def js_and_def js_or_def number_def)

text \<open>
  C8. In the arithmetic of any rounding: for two rectangles, and for two circles,
  \<open>hitTest(a, b)\<close> is \<open>hitTest(b, a)\<close>; and two rectangles with the right edge of \<open>a\<close>,
  \<open>a.position.x + a.width / 2\<close>, equal to the left edge of \<open>b\<close>,
  \<open>b.position.x - b.width / 2\<close>, do not hit.
\<close>

theorem hitTest_symmetric:
  "(shape a = Some (Rectangle wa ha) \<and> shape b = Some (Rectangle wb hb) \<longrightarrow>
      hitTest rd a b = hitTest rd b a \<and>
      (fadd rd (vec_x (position a)) (fdiv rd wa 2) = fsub rd (vec_x (position b)) (fdiv rd wb 2)
         \<longrightarrow> hitTest rd a b = Inr False)) \<and>
   (shape a = Some (Circle ra) \<and> shape b = Some (Circle rb) \<longrightarrow> hitTest rd a b = hitTest rd b a)"
proof (intro conjI impI)
  assume r: "shape a = Some (Rectangle wa ha) \<and> shape b = Some (Rectangle wb hb)"
  then have ov: "rect_overlap rd a b = rect_overlap rd b a"
    by (auto simp: rect_overlap_def defined_def number_def)
  with r show "hitTest rd a b = hitTest rd b a"
    by (auto simp: hitTest_rect_rect)
  assume "fadd rd (vec_x (position a)) (fdiv rd wa 2) = fsub rd (vec_x (position b)) (fdiv rd wb 2)"
  with r have "\<not> rect_overlap rd a b" by (simp add: rect_overlap_def defined_def number_def)
  with r show "hitTest rd a b = Inr False"
    by (simp add: hitTest_rect_rect)
next
  assume c: "shape a = Some (Circle ra) \<and> shape b = Some (Circle rb)"
  have "Vector_distance rd (position a) (position b) = Vector_distance rd (position b) (position a)"
    by (simp add: Vector_distance_def power2_commute)
  moreover have "fadd rd ra rb = fadd rd rb ra" by (simp add: fadd_def add.commute)
  ultimately show "hitTest rd a b = hitTest rd b a"
    using c by (auto simp: hitTest_circle_circle)
qed

lemma vector_eq: "(p::vector) = q \<longleftrightarrow> vec_x p = vec_x q \<and> vec_y p = vec_y q"
  by (cases p; cases q) auto

lemma rect_overlap_exact:
  assumes "shape a = Some (Rectangle wa ha)" and "shape b = Some (Rectangle wb hb)"
  shows "rect_overlap exact a b \<longleftrightarrow>
     \<not> (vec_y (position a) + ha / 2 \<le> vec_y (position b) - hb / 2 \<or>
        vec_y (position a) - ha / 2 \<ge> vec_y (position b) + hb / 2 \<or>
        vec_x (position a) - wa / 2 \<ge> vec_x (position b) + wb / 2 \<or>
        vec_x (position a) + wa / 2 \<le> vec_x (position b) - wb / 2)"
  using assms by (simp add: rect_overlap_def defined_def number_def)

lemma hitResponse_down_store:
  assumes sa: "shape (body_of st a) = Some (Rectangle wa ha)"
    and sb: "shape (body_of st b) = Some (Rectangle wb hb)"
    and hit: "hitTest rd (body_of st a) (body_of st b) = Inr True"
    and above: "fadd rd (vec_y (lastPosition (body_of st a))) (fdiv rd ha 2)
                  \<le> fsub rd (vec_y (lastPosition (body_of st b))) (fdiv rd hb 2)"
    and acc: "collide_hook ext st a b (Direction DOWN)"
  shows "hitResponse rd ext st a b =
           Normal True (upd_body (record_call st (Collide a b (Direction DOWN))) a
             (set_position_y (fsub rd (fsub rd (vec_y (position (body_of st b))) (fdiv rd hb 2))
                                (fdiv rd ha 2))))"
proof -
  from hit sa sb have w: "wa \<noteq> 0" "wb \<noteq> 0"
    by (simp_all add: hitTest_rect_rect)
  have both: "js_and (shape_has width (body_of st a)) (shape_has width (body_of st b)) = Inr True"
    using sa sb w by (simp add: js_and_def shape_has_def)
  show ?thesis
    using both above acc sa sb
    by (simp add: hitResponse_def defined_def Let_def respond_def number_def)
qed

text \<open>
  C6 (amended). Let \<open>a\<close> and \<open>b\<close> be rectangles that overlap at their current positions, with
  \<open>a.last.y + a.height / 2 <= b.last.y - b.height / 2\<close>, and let \<open>a.collide(b, 'DOWN')\<close>
  accept. Then, in the arithmetic of any rounding, \<open>hitResponse(a, b)\<close> returns true after
  calling \<open>a.collide\<close> once, with the direction \<open>DOWN\<close>; it sets \<open>a.position.y\<close> to the
  computed value of \<open>b.position.y - b.height / 2 - a.height / 2\<close> and changes nothing
  else of \<open>a\<close>, no other body and no world. In exact arithmetic \<open>hitTest(a, b)\<close> is false
  afterwards.
\<close>

theorem hitResponse_down:
  assumes sa: "shape (body_of st a) = Some (Rectangle wa ha)"
    and sb: "shape (body_of st b) = Some (Rectangle wb hb)"
    and hit: "hitTest rd (body_of st a) (body_of st b) = Inr True"
    and above: "fadd rd (vec_y (lastPosition (body_of st a))) (fdiv rd ha 2)
                  \<le> fsub rd (vec_y (lastPosition (body_of st b))) (fdiv rd hb 2)"
    and acc: "collide_hook ext st a b (Direction DOWN)"
  shows "\<exists>st'. hitResponse rd ext st a b = Normal True st' \<and>
           calls st' = calls st @ [Collide a b (Direction DOWN)] \<and>
           body_of st' a = (body_of st a)\<lparr>position :=
              \<lparr>vec_x = vec_x (position (body_of st a)),
               vec_y = fsub rd (fsub rd (vec_y (position (body_of st b))) (fdiv rd hb 2))
                         (fdiv rd ha 2)\<rparr>\<rparr> \<and>
           (\<forall>c. c \<noteq> a \<longrightarrow> body_of st' c = body_of st c) \<and>
           world_of st' = world_of st \<and>
           (rd = exact \<longrightarrow> hitTest rd (body_of st' a) (body_of st' b) = Inr False)"
proof -
  let ?A = "body_of st a" and ?B = "body_of st b"
  let ?y = "fsub rd (fsub rd (vec_y (position ?B)) (fdiv rd hb 2)) (fdiv rd ha 2)"
  from hit sa sb have ov: "rect_overlap rd ?A ?B"
    by (simp add: hitTest_rect_rect)
  define st' where "st' = upd_body (record_call st (Collide a b (Direction DOWN))) a (set_position_y ?y)"
  have r: "hitResponse rd ext st a b = Normal True st'"
    unfolding st'_def using sa sb hit above acc by (rule hitResponse_down_store)
  have A': "body_of st' a = ?A\<lparr>position :=
              \<lparr>vec_x = vec_x (position ?A), vec_y = ?y\<rparr>\<rparr>"
    by (simp add: st'_def upd_body_def record_call_def set_position_y_def vector_eq)
  have "hitTest rd (body_of st' a) (body_of st' b) = Inr False" if ex: "rd = exact"
  proof -
    have ne: "a \<noteq> b"
    proof
      assume "a = b"
      with sa sb above ov show False
        unfolding ex rect_overlap_exact[OF sa sb] by simp
    qed
    then have B': "body_of st' b = ?B"
      by (simp add: st'_def upd_body_def record_call_def)
    show ?thesis
      unfolding A' B' ex using sa sb
      by (simp add: hitTest_rect_rect rect_overlap_def defined_def number_def)
  qed
  moreover have "calls st' = calls st @ [Collide a b (Direction DOWN)]"
    by (simp add: st'_def upd_body_def record_call_def)
  moreover have "\<forall>c. c \<noteq> a \<longrightarrow> body_of st' c = body_of st c"
    by (simp add: st'_def upd_body_def record_call_def)
  moreover have "world_of st' = world_of st"
    by (simp add: st'_def upd_body_def record_call_def)
  ultimately show ?thesis using r A' by blast
qed

lemma upd_body_simps:
  "body_of (upd_body st b f) c = (if c = b then f (body_of st b) else body_of st c)"
  "world_of (upd_body st b f) = world_of st"
  "calls (upd_body st b f) = calls st"
  by (simp_all add: upd_body_def)

lemma upd_world_simps:
  "world_of (upd_world st w f) v = (if v = w then f (world_of st w) else world_of st v)"
  "body_of (upd_world st w f) = body_of st"
  "calls (upd_world st w f) = calls st"
  by (simp_all add: upd_world_def)

text \<open>
  C3 (amended). For a body whose \<open>world\<close> is not \<open>null\<close>, \<open>Body.addTo(world)\<close> changes
  nothing: the owner stays and nothing is inserted anywhere. \<open>World.addBody\<close> leaves
  every collision group that already lists the body as it is.
\<close>

theorem addTo_owned_noop:
  "(world (body_of st b) \<noteq> None \<longrightarrow> Body_addTo st b w = st) \<and>
   (collisionGroups (world_of st w) k = Some l \<and> b \<in> set l \<longrightarrow>
      collisionGroups (world_of (World_addBody st w b) w) k = Some l)"
proof (intro conjI impI)
  assume "world (body_of st b) \<noteq> None"
  then show "Body_addTo st b w = st" by (simp add: Body_addTo_def)
next
  assume a: "collisionGroups (world_of st w) k = Some l \<and> b \<in> set l"
  show "collisionGroups (world_of (World_addBody st w b) w) k = Some l"
  proof (cases "collisionGroup (body_of st b)")
    case None
    with a show ?thesis
      by (simp add: World_addBody_def World_addBodyCollision_def Let_def
            upd_body_simps upd_world_simps)
  next
    case (Some g)
    with a show ?thesis
      by (cases "k = g")
         (auto simp: World_addBody_def World_addBodyCollision_def Let_def
            upd_body_simps upd_world_simps split: option.splits)
  qed
qed

lemma Math_clamp_abs: "0 < L \<Longrightarrow> \<bar>Math_clamp v (- L) L\<bar> \<le> L"
  by (auto simp: Math_clamp_def)

lemma Body_update_throw:
  assumes "mass (body_of st b) \<noteq> 0" and "world (body_of st b) = None"
  shows "Body_update rd st b delta =
           Throw TypeError (upd_body st b (\<lambda>bd. bd\<lparr>lastPosition := position bd\<rparr>))"
  using assms by (simp add: Body_update_def Let_def upd_body_simps)

lemma Body_update_normal:
  assumes "mass (body_of st b) = 0 \<or> world (body_of st b) \<noteq> None"
  shows "Body_update rd st b delta =
           Normal () (upd_body st b (\<lambda>bd. bd\<lparr>lastPosition := position bd,
              velocity := spec_update_velocity rd st b delta,
              position := Vector_add rd (position bd)
                 (fmul rd (vec_x (spec_update_velocity rd st b delta)) delta)
                 (fmul rd (vec_y (spec_update_velocity rd st b delta)) delta)\<rparr>))"
  using assms
  by (simp add: Body_update_def Let_def upd_body_def spec_update_velocity_def
        spec_clamped_def spec_velocity_def Vector_add_def Vector_scale_def)

lemma hitTest_cong:
  assumes "shape a = shape a'" "position a = position a'"
    and "shape b = shape b'" "position b = position b'"
  shows "hitTest rd a b = hitTest rd a' b'"
proof (cases "shape a'")
  case None
  with assms show ?thesis by (simp add: hitTest_def shape_has_def js_and_def)
next
  case sa: (Some sa)
  show ?thesis
  proof (cases "shape b'")
    case None
    with sa assms show ?thesis
      by (cases sa) (simp_all add: hitTest_def shape_has_def js_and_def js_or_def)
  next
    case (Some sb)
    with sa assms show ?thesis
      by (cases sa; cases sb)
         (simp_all add: hitTest_def shape_has_def js_and_def js_or_def rect_overlap_def defined_def
            rect_circle_overlap_def defined_def number_def Let_def)
  qed
qed

lemma hitTest_no_throw:
  assumes "shape a \<noteq> None" and "shape b \<noteq> None"
  shows "hitTest rd a b \<noteq> Inl e"
  using assms
  by (auto simp: hitTest_def shape_has_def js_and_def js_or_def Let_def split: option.splits)

lemma hits_collides [simp]:
  "hits rd (upd_body st a (\<lambda>bd. bd\<lparr>collides := f bd\<rparr>)) a = hits rd st a"
proof
  fix c
  show "hits rd (upd_body st a (\<lambda>bd. bd\<lparr>collides := f bd\<rparr>)) a c = hits rd st a c"
    by (auto simp: hits_def upd_body_simps
          hitTest_cong[of "(body_of st a)\<lparr>collides := f (body_of st a)\<rparr>" "body_of st a"])
qed

lemma upd_body_twice:
  "upd_body (upd_body st a f) a g = upd_body st a (\<lambda>bd. g (f bd))"
  by (simp add: upd_body_def)

lemma collect_result:
  assumes "\<forall>b\<in>set bs. a \<noteq> b \<longrightarrow> (\<forall>e. hitTest rd (body_of st a) (body_of st b) \<noteq> Inl e)"
  shows "collect rd st a bs =
           Normal () (upd_body st a (\<lambda>bd. bd\<lparr>collides := collides bd @ filter (hits rd st a) bs\<rparr>))"
  using assms
proof (induction bs arbitrary: st)
  case Nil
  show ?case by (simp add: upd_body_def)
next
  case (Cons b bs)
  let ?st' = "upd_body st a (\<lambda>bd. bd\<lparr>collides := collides bd @ [b]\<rparr>)"
  have same: "\<And>c. a \<noteq> c \<Longrightarrow> hitTest rd (body_of ?st' a) (body_of ?st' c) = hitTest rd (body_of st a) (body_of st c)"
    by (simp add: upd_body_simps hitTest_cong[of "(body_of st a)\<lparr>collides := collides (body_of st a) @ [b]\<rparr>" "body_of st a"])
  have p1: "\<forall>c\<in>set bs. a \<noteq> c \<longrightarrow> (\<forall>e. hitTest rd (body_of st a) (body_of st c) \<noteq> Inl e)"
    using Cons.prems by simp
  have p2: "\<forall>c\<in>set bs. a \<noteq> c \<longrightarrow> (\<forall>e. hitTest rd (body_of ?st' a) (body_of ?st' c) \<noteq> Inl e)"
    using p1 same by simp
  show ?case
  proof (cases "a = b")
    case True
    then show ?thesis using Cons.IH[OF p1] by (simp add: hits_def)
  next
    case False
    with Cons.prems obtain r where r: "hitTest rd (body_of st a) (body_of st b) = Inr r"
      by (cases "hitTest rd (body_of st a) (body_of st b)") auto
    show ?thesis
    proof (cases r)
      case True
      with r False have h: "hits rd st a b" by (simp add: hits_def)
      from True r False show ?thesis
        using Cons.IH[OF p2] h by (simp add: upd_body_twice)
    next
      case False
      with r have h: "\<not> hits rd st a b" by (simp add: hits_def)
      from False r \<open>a \<noteq> b\<close> show ?thesis
        using Cons.IH[OF p1] h by simp
    qed
  qed
qed

lemma responses_append: "responses (xs @ ys) = responses xs @ responses ys"
  by (induction xs rule: responses.induct) simp_all

lemma moved_refl: "moved st a st"
  by (simp add: moved_def)

lemma moved_trans:
  assumes "moved st a st1" and "moved st1 a st2"
  shows "moved st a st2"
proof -
  let ?p0 = "position (body_of st a)"
  from assms have e1: "(body_of st1 a)\<lparr>position := ?p0\<rparr> = body_of st a"
    and e2: "(body_of st2 a)\<lparr>position := position (body_of st1 a)\<rparr> = body_of st1 a"
    by (simp_all add: moved_def)
  from e2 have "((body_of st2 a)\<lparr>position := position (body_of st1 a)\<rparr>)\<lparr>position := ?p0\<rparr>
                  = (body_of st1 a)\<lparr>position := ?p0\<rparr>"
    by (rule arg_cong)
  then have "(body_of st2 a)\<lparr>position := ?p0\<rparr> = (body_of st1 a)\<lparr>position := ?p0\<rparr>"
    by simp
  with e1 have e: "(body_of st2 a)\<lparr>position := ?p0\<rparr> = body_of st a" by simp
  from assms have "world_of st2 = world_of st" "responses (calls st2) = responses (calls st)"
    "\<forall>c. c \<noteq> a \<longrightarrow> body_of st2 c = body_of st c"
    by (simp_all add: moved_def)
  with e show ?thesis by (simp add: moved_def)
qed

lemma moved_shape:
  assumes "moved st a st'"
  shows "shape (body_of st' c) = shape (body_of st c)"
proof (cases "c = a")
  case True
  from assms have "(body_of st' a)\<lparr>position := position (body_of st a)\<rparr> = body_of st a"
    by (simp add: moved_def)
  then have "shape ((body_of st' a)\<lparr>position := position (body_of st a)\<rparr>) = shape (body_of st a)"
    by (rule arg_cong)
  with True show ?thesis by simp
next
  case False
  with assms show ?thesis by (simp add: moved_def)
qed

lemma moved_collides:
  assumes "moved st a st'"
  shows "collides (body_of st' c) = collides (body_of st c)"
proof (cases "c = a")
  case True
  from assms have "(body_of st' a)\<lparr>position := position (body_of st a)\<rparr> = body_of st a"
    by (simp add: moved_def)
  then have "collides ((body_of st' a)\<lparr>position := position (body_of st a)\<rparr>) = collides (body_of st a)"
    by (rule arg_cong)
  with True show ?thesis by simp
next
  case False
  with assms show ?thesis by (simp add: moved_def)
qed

lemma respond_moved:
  assumes mv: "\<And>bd. (mv bd)\<lparr>position := position bd\<rparr> = bd"
  shows "\<exists>r st'. respond ext st a b arg mv = Normal r st' \<and> moved st a st'"
proof (cases "collide_hook ext st a b arg")
  case True
  then have "respond ext st a b arg mv =
      Normal True (upd_body (record_call st (Collide a b arg)) a mv)"
    by (simp add: respond_def Let_def)
  moreover have "moved st a (upd_body (record_call st (Collide a b arg)) a mv)"
    by (simp add: moved_def upd_body_def record_call_def responses_append mv)
  ultimately show ?thesis by blast
next
  case False
  then have "respond ext st a b arg mv = Normal False (record_call st (Collide a b arg))"
    by (simp add: respond_def Let_def)
  moreover have "moved st a (record_call st (Collide a b arg))"
    by (simp add: moved_def record_call_def responses_append)
  ultimately show ?thesis by blast
qed

lemma js_and_shapes:
  assumes "shape a \<noteq> None" and "shape b \<noteq> None"
  shows "\<exists>c. js_and (shape_has p a) (shape_has q b) = Inr c"
proof -
  from assms obtain sa sb where "shape a = Some sa" "shape b = Some sb" by auto
  then show ?thesis by (auto simp: js_and_def shape_has_def)
qed

lemma hitResponse_moved:
  assumes "shape (body_of st a) \<noteq> None" and "shape (body_of st b) \<noteq> None"
  shows "\<exists>r st'. hitResponse rd ext st a b = Normal r st' \<and> moved st a st'"
proof -
  let ?A = "body_of st a" and ?B = "body_of st b"
  from js_and_shapes[OF assms] obtain cw
    where cw: "js_and (shape_has width ?A) (shape_has width ?B) = Inr cw" by blast
  from js_and_shapes[OF assms] obtain cr
    where cr: "js_and (shape_has radius ?A) (shape_has radius ?B) = Inr cr" by blast
  have y: "\<And>v bd. (set_position_y v bd)\<lparr>position := position bd\<rparr> = bd"
    by (simp add: set_position_y_def)
  have x: "\<And>v bd. (set_position_x v bd)\<lparr>position := position bd\<rparr> = bd"
    by (simp add: set_position_x_def)
  have xy: "\<And>u v bd. (set_position_y v (set_position_x u bd))\<lparr>position := position bd\<rparr> = bd"
    by (simp add: set_position_y_def set_position_x_def)
  have i: "\<And>bd::body. bd\<lparr>position := position bd\<rparr> = bd"
    by simp
  show ?thesis
  proof (cases cw)
    case True
    with cw show ?thesis
      by (simp add: hitResponse_def defined_def Let_def respond_moved[where mv = "set_position_y v" for v, OF y]
            respond_moved[where mv = "set_position_x v" for v, OF x]
            respond_moved[where mv = "\<lambda>bd. bd", OF i])
  next
    case False
    show ?thesis
    proof (cases cr)
      case True
      with cw \<open>\<not> cw\<close> cr show ?thesis
        by (simp add: hitResponse_def defined_def Let_def
              respond_moved[where mv = "\<lambda>bd. set_position_y v (set_position_x u bd)" for u v, OF xy])
    next
      case False
      with cw \<open>\<not> cw\<close> cr show ?thesis
        using moved_refl[of st a] by (auto simp: hitResponse_def defined_def Let_def)
    qed
  qed
qed

lemma record_call_simps:
  "body_of (record_call st c) = body_of st"
  "world_of (record_call st c) = world_of st"
  "calls (record_call st c) = calls st @ [c]"
  by (simp_all add: record_call_def)

lemma respond_all_result:
  assumes "shape (body_of st a) \<noteq> None" and "\<forall>b\<in>set bs. shape (body_of st b) \<noteq> None"
  shows "\<exists>st'. respond_all rd ext st a bs = Normal () st' \<and>
           world_of st' = world_of st \<and>
           collides (body_of st' a) = collides (body_of st a) \<and>
           responses (calls st') = responses (calls st) @ map (Pair a) bs"
  using assms
proof (induction bs arbitrary: st)
  case Nil
  show ?case by simp
next
  case (Cons b bs)
  let ?st0 = "record_call st (HitResponse a b)"
  have "shape (body_of ?st0 a) \<noteq> None" "shape (body_of ?st0 b) \<noteq> None"
    using Cons.prems by (simp_all add: record_call_simps)
  from hitResponse_moved[OF this, of rd ext] obtain r st1
    where h: "hitResponse rd ext ?st0 a b = Normal r st1" and m: "moved ?st0 a st1" by blast
  let ?st2 = "if r then record_call st1 (AfterCollide a b) else st1"
  have sh: "\<And>c. shape (body_of ?st2 c) = shape (body_of st c)"
    using moved_shape[OF m] by (simp add: record_call_simps)
  have co: "collides (body_of ?st2 a) = collides (body_of st a)"
    using moved_collides[OF m, of a] by (simp add: record_call_simps)
  have wo: "world_of ?st2 = world_of st"
    using m by (simp add: moved_def record_call_simps)
  have re: "responses (calls ?st2) = responses (calls st) @ [(a, b)]"
    using m by (simp add: moved_def record_call_simps responses_append)
  have "shape (body_of ?st2 a) \<noteq> None" "\<forall>c\<in>set bs. shape (body_of ?st2 c) \<noteq> None"
    using Cons.prems sh by simp_all
  from Cons.IH[OF this] obtain st' where
    r: "respond_all rd ext ?st2 a bs = Normal () st'" and
    w: "world_of st' = world_of ?st2" and
    c: "collides (body_of st' a) = collides (body_of ?st2 a)" and
    e: "responses (calls st') = responses (calls ?st2) @ map (Pair a) bs"
    by blast
  have "respond_all rd ext st a (b # bs) = Normal () st'"
    using h r by simp
  moreover have "world_of st' = world_of st" using w wo by simp
  moreover have "collides (body_of st' a) = collides (body_of st a)" using c co by simp
  moreover have "responses (calls st') = responses (calls st) @ map (Pair a) (b # bs)"
    using e re by simp
  ultimately show ?case by blast
qed

text \<open>
  C2 (amended). One pass of \<open>World.collide\<close> over a group \<open>key\<close> of
  \<open>body.collideAgainst\<close>, for bodies that all have a shape: the pass returns; the list
  \<open>_collides\<close> it leaves holds the members of the group that \<open>body\<close> hits rd, tested against
  the state at the start of the pass, in the order they were collected, which is the
  reverse of the group's order; and \<open>hitResponse rd\<close> is then called once for each of them,
  in the group's order, that is in the reverse of the order of collection. The bodies
  counted as hit do not depend on what the responses do to the position of \<open>body\<close>.
\<close>

theorem collide_group_two_phase:
  assumes grp: "collisionGroups (world_of st w) key = Some grp"
    and sa: "shape (body_of st a) \<noteq> None"
    and sg: "\<forall>b\<in>set grp. shape (body_of st b) \<noteq> None"
  shows "\<exists>st'. collide_group rd ext st w a key = Normal () st' \<and>
           collides (body_of st' a) = rev (filter (hits rd st a) grp) \<and>
           responses (calls st') = responses (calls st) @ map (Pair a) (filter (hits rd st a) grp)"
proof -
  let ?st1 = "upd_body st a (\<lambda>bd. bd\<lparr>collides := []\<rparr>)"
  let ?hs = "filter (hits rd st a) grp"
  let ?st2 = "upd_body ?st1 a (\<lambda>bd. bd\<lparr>collides := collides bd @ filter (hits rd st a) (rev grp)\<rparr>)"
  have sh1: "\<And>c. shape (body_of ?st1 c) = shape (body_of st c)"
    by (simp add: upd_body_simps)
  have "\<forall>b\<in>set (rev grp). a \<noteq> b \<longrightarrow> (\<forall>e. hitTest rd (body_of ?st1 a) (body_of ?st1 b) \<noteq> Inl e)"
    using sa sg by (simp add: hitTest_no_throw sh1)
  from collect_result[OF this] have c: "collect rd ?st1 a (rev grp) = Normal () ?st2" by simp
  have co2: "collides (body_of ?st2 a) = rev ?hs"
    by (simp add: upd_body_simps rev_filter)
  have sh2: "\<And>c. shape (body_of ?st2 c) = shape (body_of st c)"
    by (simp add: upd_body_simps)
  have "shape (body_of ?st2 a) \<noteq> None" "\<forall>b\<in>set ?hs. shape (body_of ?st2 b) \<noteq> None"
    using sa sg by (simp_all add: sh2)
  from respond_all_result[OF this, of rd ext] obtain st' where
    r: "respond_all rd ext ?st2 a ?hs = Normal () st'" and
    c': "collides (body_of st' a) = collides (body_of ?st2 a)" and
    e: "responses (calls st') = responses (calls ?st2) @ map (Pair a) ?hs"
    by blast
  have "collide_group rd ext st w a key = Normal () st'"
    using grp c r co2 by (simp add: collide_group_def Let_def upd_body_simps)
  moreover have "collides (body_of st' a) = rev ?hs" using c' co2 by simp
  moreover have "responses (calls st') = responses (calls st) @ map (Pair a) ?hs"
    using e by (simp add: upd_body_simps)
  ultimately show ?thesis by blast
qed

text \<open>
  C7. In the arithmetic of any rounding: when \<open>update\<close> returns (the mass is 0 or the
  body is in a world), each axis of the new velocity with a positive limit \<open>L\<close> is
  within \<open>[-L, L]\<close>, and each axis whose limit is 0 is not clamped: it is the velocity
  of steps 2 to 4 (gravity, force, damping), whatever its size.
\<close>

theorem update_velocity_limit:
  assumes "mass (body_of st b) = 0 \<or> world (body_of st b) \<noteq> None"
  shows "\<exists>st'. Body_update rd st b delta = Normal () st' \<and>
     (0 < vec_x (velocityLimit (body_of st b)) \<longrightarrow>
        \<bar>vec_x (velocity (body_of st' b))\<bar> \<le> vec_x (velocityLimit (body_of st b))) \<and>
     (0 < vec_y (velocityLimit (body_of st b)) \<longrightarrow>
        \<bar>vec_y (velocity (body_of st' b))\<bar> \<le> vec_y (velocityLimit (body_of st b))) \<and>
     (vec_x (velocityLimit (body_of st b)) = 0 \<longrightarrow>
        vec_x (velocity (body_of st' b)) =
          spec_velocity rd (vec_x (velocity (body_of st b)))
            (vec_x (gravity (world_of st (the (world (body_of st b))))))
            (mass (body_of st b)) (vec_x (force (body_of st b))) (damping (body_of st b)) delta) \<and>
     (vec_y (velocityLimit (body_of st b)) = 0 \<longrightarrow>
        vec_y (velocity (body_of st' b)) =
          spec_velocity rd (vec_y (velocity (body_of st b)))
            (vec_y (gravity (world_of st (the (world (body_of st b))))))
            (mass (body_of st b)) (vec_y (force (body_of st b))) (damping (body_of st b)) delta)"
proof -
  let ?v = "spec_update_velocity rd st b delta"
  let ?st' = "upd_body st b (\<lambda>bd. bd\<lparr>lastPosition := position bd, velocity := ?v,
              position := Vector_add rd (position bd) (fmul rd (vec_x ?v) delta) (fmul rd (vec_y ?v) delta)\<rparr>)"
  have r: "Body_update rd st b delta = Normal () ?st'"
    using assms by (rule Body_update_normal)
  have "0 < vec_x (velocityLimit (body_of st b)) \<longrightarrow>
        \<bar>vec_x (velocity (body_of ?st' b))\<bar> \<le> vec_x (velocityLimit (body_of st b))"
    by (simp add: upd_body_simps spec_update_velocity_def Let_def spec_clamped_def Math_clamp_abs)
  moreover have "0 < vec_y (velocityLimit (body_of st b)) \<longrightarrow>
        \<bar>vec_y (velocity (body_of ?st' b))\<bar> \<le> vec_y (velocityLimit (body_of st b))"
    by (simp add: upd_body_simps spec_update_velocity_def Let_def spec_clamped_def Math_clamp_abs)
  moreover have "vec_x (velocityLimit (body_of st b)) = 0 \<longrightarrow>
        vec_x (velocity (body_of ?st' b)) =
          spec_velocity rd (vec_x (velocity (body_of st b)))
            (vec_x (gravity (world_of st (the (world (body_of st b))))))
            (mass (body_of st b)) (vec_x (force (body_of st b))) (damping (body_of st b)) delta"
    by (simp add: upd_body_simps spec_update_velocity_def Let_def spec_clamped_def)
  moreover have "vec_y (velocityLimit (body_of st b)) = 0 \<longrightarrow>
        vec_y (velocity (body_of ?st' b)) =
          spec_velocity rd (vec_y (velocity (body_of st b)))
            (vec_y (gravity (world_of st (the (world (body_of st b))))))
            (mass (body_of st b)) (vec_y (force (body_of st b))) (damping (body_of st b)) delta"
    by (simp add: upd_body_simps spec_update_velocity_def Let_def spec_clamped_def)
  ultimately show ?thesis using r by blast
qed

text \<open>
  C9 (amended). \<open>Body.update(delta)\<close> is a function of the store, the body and \<open>delta\<close>.
  When the mass is not 0 and \<open>world\<close> is \<open>null\<close> it throws \<open>TypeError\<close>, having set \<open>last\<close>
  to the position. Otherwise it returns, and changes nothing but the \<open>last\<close>, \<open>velocity\<close>
  and \<open>position\<close> of the body it is called on: every world, every other body and the
  recorded calls are as before.
\<close>

theorem Body_update_effects:
  "(mass (body_of st b) \<noteq> 0 \<and> world (body_of st b) = None \<longrightarrow>
      Body_update rd st b delta =
        Throw TypeError (upd_body st b (\<lambda>bd. bd\<lparr>lastPosition := position bd\<rparr>))) \<and>
   (mass (body_of st b) = 0 \<or> world (body_of st b) \<noteq> None \<longrightarrow>
      (\<exists>st'. Body_update rd st b delta = Normal () st' \<and>
         world_of st' = world_of st \<and> calls st' = calls st \<and>
         (\<forall>c. c \<noteq> b \<longrightarrow> body_of st' c = body_of st c) \<and>
         body_of st' b = (body_of st b)\<lparr>lastPosition := position (body_of st b),
            velocity := velocity (body_of st' b), position := position (body_of st' b)\<rparr>))"
proof (intro conjI impI)
  assume "mass (body_of st b) \<noteq> 0 \<and> world (body_of st b) = None"
  then show "Body_update rd st b delta =
        Throw TypeError (upd_body st b (\<lambda>bd. bd\<lparr>lastPosition := position bd\<rparr>))"
    by (simp add: Body_update_throw)
next
  assume ok: "mass (body_of st b) = 0 \<or> world (body_of st b) \<noteq> None"
  let ?v = "spec_update_velocity rd st b delta"
  let ?st' = "upd_body st b (\<lambda>bd. bd\<lparr>lastPosition := position bd, velocity := ?v,
              position := Vector_add rd (position bd) (fmul rd (vec_x ?v) delta) (fmul rd (vec_y ?v) delta)\<rparr>)"
  have r: "Body_update rd st b delta = Normal () ?st'"
    using ok by (rule Body_update_normal)
  have "world_of ?st' = world_of st" "calls ?st' = calls st"
    "\<forall>c. c \<noteq> b \<longrightarrow> body_of ?st' c = body_of st c"
    "body_of ?st' b = (body_of st b)\<lparr>lastPosition := position (body_of st b),
            velocity := velocity (body_of ?st' b), position := position (body_of ?st' b)\<rparr>"
    by (simp_all add: upd_body_simps)
  with r show "\<exists>st'. Body_update rd st b delta = Normal () st' \<and>
         world_of st' = world_of st \<and> calls st' = calls st \<and>
         (\<forall>c. c \<noteq> b \<longrightarrow> body_of st' c = body_of st c) \<and>
         body_of st' b = (body_of st b)\<lparr>lastPosition := position (body_of st b),
            velocity := velocity (body_of st' b), position := position (body_of st' b)\<rparr>"
    by blast
qed

lemma assign_velocityLimit:
  "(\<forall>v. p \<noteq> P_velocityLimit v) \<Longrightarrow> velocityLimit (assign bd p) = velocityLimit bd"
  by (cases p) simp_all

lemma foldl_assign_velocityLimit:
  "\<forall>v. P_velocityLimit v \<notin> set ps \<Longrightarrow> velocityLimit (foldl assign bd ps) = velocityLimit bd"
proof (induction ps arbitrary: bd)
  case Nil
  show ?case by simp
next
  case (Cons p ps)
  then have "\<forall>v. p \<noteq> P_velocityLimit v" and "\<forall>v. P_velocityLimit v \<notin> set ps" by auto
  with Cons.IH[of "assign bd p"] show ?case by (simp add: assign_velocityLimit)
qed

text \<open>
  C10. A body constructed from properties without \<open>velocityLimit\<close> has the limit
  (400, 400). As long as a body has this limit, every \<open>update\<close> that returns leaves
  both axes of its velocity within \<open>[-400, 400]\<close>, and leaves the limit as it is.
\<close>

theorem default_velocityLimit:
  assumes "\<forall>v. P_velocityLimit v \<notin> set properties"
  shows "velocityLimit (Body_new properties) = \<lparr>vec_x = 400, vec_y = 400\<rparr> \<and>
         (velocityLimit (body_of st b) = velocityLimit (Body_new properties) \<and>
          Body_update rd st b delta = Normal () st' \<longrightarrow>
            \<bar>vec_x (velocity (body_of st' b))\<bar> \<le> 400 \<and>
            \<bar>vec_y (velocity (body_of st' b))\<bar> \<le> 400 \<and>
            velocityLimit (body_of st' b) = \<lparr>vec_x = 400, vec_y = 400\<rparr>)"
proof (intro conjI impI)
  show d: "velocityLimit (Body_new properties) = \<lparr>vec_x = 400, vec_y = 400\<rparr>"
    using foldl_assign_velocityLimit[OF assms, of Body_defaults]
    by (simp add: Body_new_def Body_defaults_def)
  assume a: "velocityLimit (body_of st b) = velocityLimit (Body_new properties) \<and>
          Body_update rd st b delta = Normal () st'"
  then have l: "velocityLimit (body_of st b) = \<lparr>vec_x = 400, vec_y = 400\<rparr>" using d by simp
  have ok: "mass (body_of st b) = 0 \<or> world (body_of st b) \<noteq> None"
  proof (rule ccontr)
    assume "\<not> ?thesis"
    then have "Body_update rd st b delta =
        Throw TypeError (upd_body st b (\<lambda>bd. bd\<lparr>lastPosition := position bd\<rparr>))"
      by (simp add: Body_update_throw)
    with a show False by simp
  qed
  let ?v = "spec_update_velocity rd st b delta"
  from Body_update_normal[OF ok, of rd delta] a
  have st': "st' = upd_body st b (\<lambda>bd. bd\<lparr>lastPosition := position bd, velocity := ?v,
              position := Vector_add rd (position bd) (fmul rd (vec_x ?v) delta) (fmul rd (vec_y ?v) delta)\<rparr>)"
    by simp
  show "\<bar>vec_x (velocity (body_of st' b))\<bar> \<le> 400"
    using l by (simp add: st' upd_body_simps spec_update_velocity_def Let_def spec_clamped_def
          Math_clamp_abs[of 400, simplified])
  show "\<bar>vec_y (velocity (body_of st' b))\<bar> \<le> 400"
    using l by (simp add: st' upd_body_simps spec_update_velocity_def Let_def spec_clamped_def
          Math_clamp_abs[of 400, simplified])
  show "velocityLimit (body_of st' b) = \<lparr>vec_x = 400, vec_y = 400\<rparr>"
    using l by (simp add: st' upd_body_simps)
qed

theorem hitTest_unknown_shape_witness:
  "shape (Body_new []) = None \<and>
   hitTest exact (Body_new []) (Body_new [P_shape (Some (Rectangle 50 50))]) = Inl TypeError \<and>
   shape (Body_new [P_shape (Some (OtherShape None None None))]) \<noteq> None \<and>
   hitTest exact (Body_new [P_shape (Some (OtherShape None None None))]) (Body_new []) = Inr False \<and>
   shape (Body_new [P_shape (Some (Rectangle 50 50))]) \<noteq> None \<and>
   shape_has width (Body_new [P_shape (Some (OtherShape None (Some 10) None))]) = Inr False \<and>
   shape_has radius (Body_new [P_shape (Some (OtherShape None (Some 10) None))]) = Inr False \<and>
   hitTest exact (Body_new [P_shape (Some (Rectangle 50 50))])
     (Body_new [P_shape (Some (OtherShape None (Some 10) None))]) = Inr False"
proof -
  let ?n = "Body_new []"
  let ?o = "Body_new [P_shape (Some (OtherShape None None None))]"
  let ?h = "Body_new [P_shape (Some (OtherShape None (Some 10) None))]"
  let ?r = "Body_new [P_shape (Some (Rectangle 50 50))]"
  have n: "shape ?n = None" by (simp add: Body_new_def Body_defaults_def)
  have o: "shape ?o \<noteq> None" and r: "shape ?r \<noteq> None" and h: "shape ?h \<noteq> None"
    by (simp_all add: Body_new_def)
  have ow: "\<not> (shape_has width ?o = Inr True \<or> shape_has radius ?o = Inr True)"
    by (simp add: shape_has_def Body_new_def)
  have hw: "shape_has width ?h = Inr False" and hr: "shape_has radius ?h = Inr False"
    by (simp_all add: shape_has_def Body_new_def)
  from hitTest_unknown_shape[where rd = exact and a = ?n and b = ?r] n
  have t1: "hitTest exact ?n ?r = Inl TypeError" by blast
  from hitTest_unknown_shape[where rd = exact and a = ?o and b = ?n] o n
  have "hitTest exact ?o ?n =
        (if shape_has width ?o = Inr True \<or> shape_has radius ?o = Inr True
         then Inl TypeError else Inr False)" by blast
  with ow have t2: "hitTest exact ?o ?n = Inr False" by simp
  from hitTest_unknown_shape[where rd = exact and a = ?r and b = ?h] r h hw hr
  have t3: "hitTest exact ?r ?h = Inr False" by blast
  show ?thesis by (intro conjI) (fact n t1 o t2 r hw hr t3)+
qed

theorem hitTest_symmetric_witness:
  "shape (Body_new [P_shape (Some (Rectangle 10 10))]) = Some (Rectangle 10 10) \<and>
   shape (Body_new [P_shape (Some (Rectangle 10 10)), P_position \<lparr>vec_x = 10, vec_y = 0\<rparr>])
     = Some (Rectangle 10 10) \<and>
   fadd exact (vec_x (position (Body_new [P_shape (Some (Rectangle 10 10))]))) (fdiv exact 10 2) =
   fsub exact (vec_x (position (Body_new [P_shape (Some (Rectangle 10 10)),
                                          P_position \<lparr>vec_x = 10, vec_y = 0\<rparr>])))
     (fdiv exact 10 2) \<and>
   hitTest exact (Body_new [P_shape (Some (Rectangle 10 10))])
           (Body_new [P_shape (Some (Rectangle 10 10)), P_position \<lparr>vec_x = 10, vec_y = 0\<rparr>])
     = Inr False \<and>
   hitTest exact (Body_new [P_shape (Some (Rectangle 10 10)), P_position \<lparr>vec_x = 10, vec_y = 0\<rparr>])
           (Body_new [P_shape (Some (Rectangle 10 10))])
     = Inr False \<and>
   shape (Body_new [P_shape (Some (Circle 5))]) = Some (Circle 5) \<and>
   shape (Body_new [P_shape (Some (Circle 5)), P_position \<lparr>vec_x = 6, vec_y = 8\<rparr>])
     = Some (Circle 5) \<and>
   hitTest exact (Body_new [P_shape (Some (Circle 5))])
           (Body_new [P_shape (Some (Circle 5)), P_position \<lparr>vec_x = 6, vec_y = 8\<rparr>]) =
   hitTest exact (Body_new [P_shape (Some (Circle 5)), P_position \<lparr>vec_x = 6, vec_y = 8\<rparr>])
           (Body_new [P_shape (Some (Circle 5))])"
proof -
  let ?a = "Body_new [P_shape (Some (Rectangle 10 10))]"
  let ?b = "Body_new [P_shape (Some (Rectangle 10 10)), P_position \<lparr>vec_x = 10, vec_y = 0\<rparr>]"
  let ?c = "Body_new [P_shape (Some (Circle 5))]"
  let ?d = "Body_new [P_shape (Some (Circle 5)), P_position \<lparr>vec_x = 6, vec_y = 8\<rparr>]"
  have sa: "shape ?a = Some (Rectangle 10 10)" and sb: "shape ?b = Some (Rectangle 10 10)"
    and sc: "shape ?c = Some (Circle 5)" and sd: "shape ?d = Some (Circle 5)"
    by (simp_all add: Body_new_def)
  have edge: "fadd exact (vec_x (position ?a)) (fdiv exact 10 2) =
              fsub exact (vec_x (position ?b)) (fdiv exact 10 2)"
    by (simp add: Body_new_def Body_defaults_def Vector_new_def)
  from hitTest_symmetric[where rd = exact and a = ?a and b = ?b and wa = 10 and ha = 10
      and wb = 10 and hb = 10 and ra = 0 and rb = 0] sa sb edge
  have sym: "hitTest exact ?a ?b = hitTest exact ?b ?a" and ab: "hitTest exact ?a ?b = Inr False" by blast+
  from sym ab have ba: "hitTest exact ?b ?a = Inr False" by simp
  from hitTest_symmetric[where rd = exact and a = ?c and b = ?d and wa = 0 and ha = 0
      and wb = 0 and hb = 0 and ra = 5 and rb = 5] sc sd
  have cd: "hitTest exact ?c ?d = hitTest exact ?d ?c" by blast
  show ?thesis by (intro conjI) (fact sa sb edge ab ba sc sd cd)+
qed

lemma landing_bodies:
  "body_of landing_store 0 =
     Body_defaults\<lparr>shape := Some (Rectangle 10 10), position := \<lparr>vec_x = 0, vec_y = 8\<rparr>,
       lastPosition := \<lparr>vec_x = 0, vec_y = - 10\<rparr>\<rparr>"
  "body_of landing_store 2 =
     Body_defaults\<lparr>shape := Some (Rectangle 10 10), position := \<lparr>vec_x = 0, vec_y = 15\<rparr>,
       lastPosition := \<lparr>vec_x = 0, vec_y = 15\<rparr>\<rparr>"
  by (simp_all add: landing_store_def Body_new_def)

theorem hitResponse_down_witness:
  "shape (body_of landing_store 0) = Some (Rectangle 10 10) \<and>
   shape (body_of landing_store 2) = Some (Rectangle 10 10) \<and>
   hitTest exact (body_of landing_store 0) (body_of landing_store 2) = Inr True \<and>
   fadd exact (vec_y (lastPosition (body_of landing_store 0))) (fdiv exact 10 2)
     \<le> fsub exact (vec_y (lastPosition (body_of landing_store 2))) (fdiv exact 10 2) \<and>
   collide_hook (Body_externals no_angle) landing_store 0 2 (Direction DOWN) \<and>
   (\<exists>st'. hitResponse exact (Body_externals no_angle) landing_store 0 2 = Normal True st' \<and>
      calls st' = [Collide 0 2 (Direction DOWN)] \<and>
      position (body_of st' 0) = \<lparr>vec_x = 0, vec_y = 5\<rparr> \<and>
      body_of st' 2 = body_of landing_store 2 \<and>
      hitTest exact (body_of st' 0) (body_of st' 2) = Inr False)"
proof -
  let ?e = "Body_externals no_angle"
  have sa: "shape (body_of landing_store 0) = Some (Rectangle 10 10)"
    and sb: "shape (body_of landing_store 2) = Some (Rectangle 10 10)"
    by (simp_all add: landing_bodies)
  have "rect_overlap exact (body_of landing_store 0) (body_of landing_store 2)"
    by (simp add: rect_overlap_def defined_def number_def landing_bodies)
  then have hit: "hitTest exact (body_of landing_store 0) (body_of landing_store 2) = Inr True"
    unfolding hitTest_rect_rect[OF sa sb] by simp
  have above: "fadd exact (vec_y (lastPosition (body_of landing_store 0))) (fdiv exact 10 2)
     \<le> fsub exact (vec_y (lastPosition (body_of landing_store 2))) (fdiv exact 10 2)"
    by (simp add: landing_bodies)
  have acc: "collide_hook ?e landing_store 0 2 (Direction DOWN)"
    by (simp add: Body_externals_def Body_collide_def)
  from hitResponse_down[OF sa sb hit above acc] obtain st' where
    r: "hitResponse exact ?e landing_store 0 2 = Normal True st'" and
    c: "calls st' = calls landing_store @ [Collide 0 2 (Direction DOWN)]" and
    a: "body_of st' 0 = (body_of landing_store 0)\<lparr>position :=
              \<lparr>vec_x = vec_x (position (body_of landing_store 0)),
               vec_y = fsub exact (fsub exact (vec_y (position (body_of landing_store 2)))
                                    (fdiv exact 10 2)) (fdiv exact 10 2)\<rparr>\<rparr>" and
    o: "\<forall>c. c \<noteq> 0 \<longrightarrow> body_of st' c = body_of landing_store c" and
    h: "hitTest exact (body_of st' 0) (body_of st' 2) = Inr False"
    by blast
  have c': "calls st' = [Collide 0 2 (Direction DOWN)]"
    using c by (simp add: landing_store_def fresh_store_def)
  have p: "position (body_of st' 0) = \<lparr>vec_x = 0, vec_y = 5\<rparr>"
    by (simp add: a landing_bodies)
  have o': "body_of st' 2 = body_of landing_store 2" using o by simp
  from r c' p o' h have "\<exists>st'. hitResponse exact ?e landing_store 0 2 = Normal True st' \<and>
      calls st' = [Collide 0 2 (Direction DOWN)] \<and>
      position (body_of st' 0) = \<lparr>vec_x = 0, vec_y = 5\<rparr> \<and>
      body_of st' 2 = body_of landing_store 2 \<and>
      hitTest exact (body_of st' 0) (body_of st' 2) = Inr False" by blast
  with sa sb hit above acc show ?thesis by blast
qed

lemma grazing_bodies:
  "body_of grazing_store 0 =
     Body_defaults\<lparr>shape := Some (Rectangle 10 (4503599627370499 / 562949953421312)),
       position := \<lparr>vec_x = 0, vec_y = - 31\<rparr>, lastPosition := \<lparr>vec_x = 0, vec_y = - 40\<rparr>\<rparr>"
  "body_of grazing_store 2 =
     Body_defaults\<lparr>shape := Some (Rectangle 10 16), position := \<lparr>vec_x = 0, vec_y = - 20\<rparr>,
       lastPosition := \<lparr>vec_x = 0, vec_y = - 20\<rparr>\<rparr>"
  by (simp_all add: grazing_store_def Body_new_def)

lemma grazing_halves:
  "fdiv binary64 (4503599627370499 / 562949953421312) 2 = 4503599627370499 / 1125899906842624"
  "fdiv binary64 16 2 = 8"
  "fdiv binary64 10 2 = 5"
  unfolding fdiv_def
  by (subst binary64_at[of 2], simp_all add: round_half_even_def,
      subst binary64_at[of 3], simp_all add: round_half_even_def,
      subst binary64_at[of 2], simp_all add: round_half_even_def)

lemma grazing_edges:
  "fadd binary64 (- 31) (4503599627370499 / 1125899906842624)
     = - (7599824371187711 / 281474976710656)"
  "fsub binary64 (- 31) (4503599627370499 / 1125899906842624) = - 35"
  "fadd binary64 (- 40) (4503599627370499 / 1125899906842624) = - 36"
  "fsub binary64 (- 28) (4503599627370499 / 1125899906842624) = - 32"
  "fadd binary64 (- 32) (4503599627370499 / 1125899906842624)
     = - (7881299347898367 / 281474976710656)"
  "fsub binary64 (- 32) (4503599627370499 / 1125899906842624) = - 36"
  "fsub binary64 (- 20) 8 = - 28"
  "fadd binary64 (- 20) 8 = - 12"
  "fsub binary64 0 5 = - 5"
  "fadd binary64 0 5 = 5"
proof -
  show "fadd binary64 (- 31) (4503599627370499 / 1125899906842624)
     = - (7599824371187711 / 281474976710656)"
    unfolding fadd_def by (subst binary64_at[of 4]) (simp_all add: round_half_even_def)
  show "fsub binary64 (- 31) (4503599627370499 / 1125899906842624) = - 35"
    unfolding fsub_def by (subst binary64_at[of 5]) (simp_all add: round_half_even_def)
  show "fadd binary64 (- 40) (4503599627370499 / 1125899906842624) = - 36"
    unfolding fadd_def by (subst binary64_at[of 5]) (simp_all add: round_half_even_def)
  show "fsub binary64 (- 28) (4503599627370499 / 1125899906842624) = - 32"
    unfolding fsub_def by (subst binary64_at[of 5]) (simp_all add: round_half_even_def)
  show "fadd binary64 (- 32) (4503599627370499 / 1125899906842624)
     = - (7881299347898367 / 281474976710656)"
    unfolding fadd_def by (subst binary64_at[of 4]) (simp_all add: round_half_even_def)
  show "fsub binary64 (- 32) (4503599627370499 / 1125899906842624) = - 36"
    unfolding fsub_def by (subst binary64_at[of 5]) (simp_all add: round_half_even_def)
  show "fsub binary64 (- 20) 8 = - 28"
    unfolding fsub_def by (subst binary64_at[of 4]) (simp_all add: round_half_even_def)
  show "fadd binary64 (- 20) 8 = - 12"
    unfolding fadd_def by (subst binary64_at[of 3]) (simp_all add: round_half_even_def)
  show "fsub binary64 0 5 = - 5"
    unfolding fsub_def by (subst binary64_at[of 2]) (simp_all add: round_half_even_def)
  show "fadd binary64 0 5 = 5"
    unfolding fadd_def by (subst binary64_at[of 2]) (simp_all add: round_half_even_def)
qed

theorem hitResponse_residual_counterexample:
  "shape (body_of grazing_store 0) = Some (Rectangle 10 (4503599627370499 / 562949953421312)) \<and>
   shape (body_of grazing_store 2) = Some (Rectangle 10 16) \<and>
   hitTest binary64 (body_of grazing_store 0) (body_of grazing_store 2) = Inr True \<and>
   fadd binary64 (vec_y (lastPosition (body_of grazing_store 0)))
        (fdiv binary64 (4503599627370499 / 562949953421312) 2)
     \<le> fsub binary64 (vec_y (lastPosition (body_of grazing_store 2))) (fdiv binary64 16 2) \<and>
   collide_hook (Body_externals no_angle) grazing_store 0 2 (Direction DOWN) \<and>
   (\<exists>st'. hitResponse binary64 (Body_externals no_angle) grazing_store 0 2 = Normal True st' \<and>
      position (body_of st' 0) = \<lparr>vec_x = 0, vec_y = - 32\<rparr> \<and>
      body_of st' 2 = body_of grazing_store 2 \<and>
      hitTest binary64 (body_of st' 0) (body_of st' 2) = Inr True)"
proof -
  let ?e = "Body_externals no_angle"
  let ?h = "4503599627370499 / 562949953421312 :: real"
  let ?A = "body_of grazing_store 0" and ?B = "body_of grazing_store 2"
  have sa: "shape ?A = Some (Rectangle 10 ?h)" and sb: "shape ?B = Some (Rectangle 10 16)"
    by (simp_all add: grazing_bodies)
  have "rect_overlap binary64 ?A ?B"
    by (simp add: rect_overlap_def defined_def number_def grazing_bodies grazing_halves grazing_edges)
  then have hit: "hitTest binary64 ?A ?B = Inr True"
    unfolding hitTest_rect_rect[OF sa sb] by simp
  have above: "fadd binary64 (vec_y (lastPosition ?A)) (fdiv binary64 ?h 2)
                 \<le> fsub binary64 (vec_y (lastPosition ?B)) (fdiv binary64 16 2)"
    by (simp add: grazing_bodies grazing_halves grazing_edges)
  have acc: "collide_hook ?e grazing_store 0 2 (Direction DOWN)"
    by (simp add: Body_externals_def Body_collide_def)
  define st' where "st' = upd_body (record_call grazing_store (Collide 0 2 (Direction DOWN))) 0
      (set_position_y (fsub binary64 (fsub binary64 (vec_y (position ?B)) (fdiv binary64 16 2))
                         (fdiv binary64 ?h 2)))"
  have r: "hitResponse binary64 ?e grazing_store 0 2 = Normal True st'"
    unfolding st'_def using sa sb hit above acc by (rule hitResponse_down_store)
  have A': "body_of st' 0 = ?A\<lparr>position := \<lparr>vec_x = 0, vec_y = - 32\<rparr>\<rparr>"
    by (simp add: st'_def upd_body_def record_call_def set_position_y_def grazing_bodies
          grazing_halves grazing_edges)
  have B': "body_of st' 2 = ?B"
    by (simp add: st'_def upd_body_def record_call_def)
  have p: "position (body_of st' 0) = \<lparr>vec_x = 0, vec_y = - 32\<rparr>"
    by (simp add: A')
  have sa': "shape (body_of st' 0) = Some (Rectangle 10 ?h)"
    by (simp add: A' grazing_bodies)
  have sb': "shape (body_of st' 2) = Some (Rectangle 10 16)"
    by (simp add: B' grazing_bodies)
  have "rect_overlap binary64 (body_of st' 0) (body_of st' 2)"
    by (simp add: rect_overlap_def defined_def number_def A' B' grazing_bodies grazing_halves grazing_edges)
  then have h': "hitTest binary64 (body_of st' 0) (body_of st' 2) = Inr True"
    unfolding hitTest_rect_rect[OF sa' sb'] by simp
  from r p B' h' have "\<exists>st'. hitResponse binary64 ?e grazing_store 0 2 = Normal True st' \<and>
      position (body_of st' 0) = \<lparr>vec_x = 0, vec_y = - 32\<rparr> \<and>
      body_of st' 2 = body_of grazing_store 2 \<and>
      hitTest binary64 (body_of st' 0) (body_of st' 2) = Inr True" by blast
  with sa sb hit above acc show ?thesis by blast
qed

lemma pile_edges:
  "fdiv binary64 50 2 = 25" "fadd binary64 0 25 = 25" "fsub binary64 0 25 = - 25"
  unfolding fdiv_def fadd_def fsub_def
  by (subst binary64_at[of 4], simp_all add: round_half_even_def)+

theorem hitTest_null_shape_counterexample:
  "hitTest binary64 (Body_new []) (Body_new [P_shape (Some (Rectangle 50 50))]) = Inl TypeError \<and>
   hitTest binary64 (Body_new [P_shape (Some (Rectangle 50 50))]) (Body_new []) = Inl TypeError \<and>
   hitTest binary64 (Body_new [P_shape (Some (OtherShape (Some 10) None None))])
     (Body_new [P_shape (Some (Rectangle 50 50))]) = Inr True"
  by (simp add: hitTest_def shape_has_def js_and_def Body_new_def Body_defaults_def
        rect_overlap_def defined_def number_def Vector_new_def
        pile_edges grazing_halves grazing_edges)

theorem collide_order_counterexample:
  "collides (body_of (final_store (collide_group binary64 (Body_externals no_angle) pile_store 0 0 7)) 0)
     = [3, 2] \<and>
   responses (calls (final_store (collide_group binary64 (Body_externals no_angle) pile_store 0 0 7)))
     = [(0, 2), (0, 3)]"
  by (simp add: collide_group_def Let_def pile_store_def fresh_store_def upd_body_def
       World_new_def Body_new_def Body_defaults_def Vector_new_def
       hitTest_def shape_has_def js_and_def js_or_def rect_overlap_def defined_def number_def
       hitResponse_def defined_def respond_def record_call_def Body_externals_def Body_collide_def
       pile_edges)

lemma pile_facts:
  "collisionGroups (world_of pile_store 0) 7 = Some [2, 3]"
  "shape (body_of pile_store 0) = Some (Rectangle 50 50)"
  "shape (body_of pile_store 2) = Some (Rectangle 50 50)"
  "shape (body_of pile_store 3) = Some (Rectangle 50 50)"
  "position (body_of pile_store 0) = Vector_new"
  "position (body_of pile_store 2) = Vector_new"
  "position (body_of pile_store 3) = Vector_new"
  "calls pile_store = []"
  by (simp_all add: pile_store_def fresh_store_def World_new_def Body_new_def Body_defaults_def)

theorem collide_group_two_phase_witness:
  "collisionGroups (world_of pile_store 0) 7 = Some [2, 3] \<and>
   shape (body_of pile_store 0) \<noteq> None \<and>
   shape (body_of pile_store 2) \<noteq> None \<and> shape (body_of pile_store 3) \<noteq> None \<and>
   filter (hits exact pile_store 0) [2, 3] = [2, 3] \<and>
   (\<exists>st'. collide_group exact (Body_externals no_angle) pile_store 0 0 7 = Normal () st' \<and>
      collides (body_of st' 0) = [3, 2] \<and>
      responses (calls st') = [(0, 2), (0, 3)])"
proof -
  have g: "collisionGroups (world_of pile_store 0) 7 = Some [2, 3]" by (rule pile_facts)
  have s0: "shape (body_of pile_store 0) \<noteq> None" and s2: "shape (body_of pile_store 2) \<noteq> None"
    and s3: "shape (body_of pile_store 3) \<noteq> None"
    by (simp_all add: pile_facts)
  have sg: "\<forall>b\<in>set [2, 3]. shape (body_of pile_store b) \<noteq> None" using s2 s3 by simp
  have "rect_overlap exact (body_of pile_store 0) (body_of pile_store 2)"
    "rect_overlap exact (body_of pile_store 0) (body_of pile_store 3)"
    by (simp_all add: rect_overlap_def defined_def number_def pile_facts Vector_new_def)
  then have h2: "hits exact pile_store 0 2" and h3: "hits exact pile_store 0 3"
    unfolding hits_def hitTest_rect_rect[OF pile_facts(2) pile_facts(3)]
      hitTest_rect_rect[OF pile_facts(2) pile_facts(4)] by simp_all
  have f: "filter (hits exact pile_store 0) [2, 3] = [2, 3]" using h2 h3 by simp
  from collide_group_two_phase[OF g s0 sg, where rd = exact and ext = "Body_externals no_angle"]
  have "\<exists>st'. collide_group exact (Body_externals no_angle) pile_store 0 0 7 = Normal () st' \<and>
      collides (body_of st' 0) = [3, 2] \<and>
      responses (calls st') = [(0, 2), (0, 3)]"
    by (simp add: h2 h3 pile_facts)
  with g s0 s2 s3 f show ?thesis by blast
qed

lemma owned_facts:
  "world (body_of owned_store 5) = Some 0"
  "bodies (world_of owned_store 0) = [5]"
  "collisionGroups (world_of owned_store 0) 7 = Some [5]"
  by (simp_all add: owned_store_def World_addBody_def World_addBodyCollision_def Let_def
        upd_body_def upd_world_def fresh_store_def Body_new_def Body_defaults_def World_new_def)

theorem addBody_twice_counterexample:
  "world (body_of owned_store 5) = Some 0 \<and>
   bodies (world_of owned_store 0) = [5] \<and>
   bodies (world_of (World_addBody owned_store 0 5) 0) = [5, 5] \<and>
   world (body_of (World_addBody owned_store 3 5) 5) = Some 3"
  by (simp add: owned_store_def World_addBody_def World_addBodyCollision_def Let_def
        upd_body_def upd_world_def fresh_store_def Body_new_def Body_defaults_def World_new_def)

theorem addTo_owned_noop_witness:
  "world (body_of owned_store 5) \<noteq> None \<and>
   Body_addTo owned_store 5 3 = owned_store \<and>
   collisionGroups (world_of owned_store 0) 7 = Some [5] \<and> 5 \<in> set [5::nat] \<and>
   collisionGroups (world_of (World_addBody owned_store 0 5) 0) 7 = Some [5]"
proof -
  have w: "world (body_of owned_store 5) \<noteq> None" by (simp add: owned_facts)
  have g: "collisionGroups (world_of owned_store 0) 7 = Some [5]" by (rule owned_facts)
  have m: "5 \<in> set [5::nat]" by simp
  from addTo_owned_noop[of owned_store 5 3 7 "[5]"] w
  have a: "Body_addTo owned_store 5 3 = owned_store" by blast
  from addTo_owned_noop[of owned_store 5 0 7 "[5]"] g m
  have b: "collisionGroups (world_of (World_addBody owned_store 0 5) 0) 7 = Some [5]" by blast
  from w a g m b show ?thesis by blast
qed

lemma speeding_body:
  "body_of speeding_store 0 =
     Body_defaults\<lparr>velocity := \<lparr>vec_x = 1000, vec_y = 1000000\<rparr>,
                    velocityLimit := \<lparr>vec_x = 400, vec_y = 0\<rparr>\<rparr>"
  by (simp add: speeding_store_def Body_new_def)

theorem update_velocity_limit_witness:
  "mass (body_of speeding_store 0) = 0 \<and>
   vec_x (velocityLimit (body_of speeding_store 0)) = 400 \<and>
   vec_y (velocityLimit (body_of speeding_store 0)) = 0 \<and>
   vec_x (velocity (body_of speeding_store 0)) = 1000 \<and>
   (\<exists>st'. Body_update exact speeding_store 0 (1 / 60) = Normal () st' \<and>
      \<bar>vec_x (velocity (body_of st' 0))\<bar> \<le> 400 \<and>
      vec_y (velocity (body_of st' 0)) = 1000000)"
proof -
  have m: "mass (body_of speeding_store 0) = 0"
    and lx: "vec_x (velocityLimit (body_of speeding_store 0)) = 400"
    and ly: "vec_y (velocityLimit (body_of speeding_store 0)) = 0"
    and vx: "vec_x (velocity (body_of speeding_store 0)) = 1000"
    and vy: "vec_y (velocity (body_of speeding_store 0)) = 1000000"
    and f: "force (body_of speeding_store 0) = Vector_new"
    and d: "damping (body_of speeding_store 0) = 0"
    by (simp_all add: speeding_body Body_defaults_def)
  from m have ok: "mass (body_of speeding_store 0) = 0 \<or> world (body_of speeding_store 0) \<noteq> None"
    by simp
  from update_velocity_limit[OF ok, where rd = exact and delta = "1 / 60"] obtain st' where
    r: "Body_update exact speeding_store 0 (1 / 60) = Normal () st'" and
    bx: "0 < vec_x (velocityLimit (body_of speeding_store 0)) \<longrightarrow>
        \<bar>vec_x (velocity (body_of st' 0))\<bar> \<le> vec_x (velocityLimit (body_of speeding_store 0))" and
    uy: "vec_y (velocityLimit (body_of speeding_store 0)) = 0 \<longrightarrow>
        vec_y (velocity (body_of st' 0)) =
          spec_velocity exact (vec_y (velocity (body_of speeding_store 0)))
            (vec_y (gravity (world_of speeding_store (the (world (body_of speeding_store 0))))))
            (mass (body_of speeding_store 0)) (vec_y (force (body_of speeding_store 0)))
            (damping (body_of speeding_store 0)) (1 / 60)"
    by blast
  from bx lx have "\<bar>vec_x (velocity (body_of st' 0))\<bar> \<le> 400" by simp
  moreover from uy ly have "vec_y (velocity (body_of st' 0)) = 1000000"
    by (simp add: m vy f d spec_velocity_def Vector_new_def)
  ultimately have "\<exists>st'. Body_update exact speeding_store 0 (1 / 60) = Normal () st' \<and>
      \<bar>vec_x (velocity (body_of st' 0))\<bar> \<le> 400 \<and>
      vec_y (velocity (body_of st' 0)) = 1000000" using r by blast
  with m lx ly vx show ?thesis by blast
qed

lemma detached_body:
  "body_of detached_store 0 = Body_defaults\<lparr>mass := 1\<rparr>"
  by (simp add: detached_store_def Body_new_def)

theorem update_detached_counterexample:
  "world (body_of detached_store 0) = None \<and>
   Body_update binary64 detached_store 0 (1 / 64) = Throw TypeError detached_store"
  by (simp add: Body_update_def Let_def upd_body_def detached_store_def fresh_store_def
        Body_new_def Body_defaults_def)

theorem Body_update_effects_witness:
  "mass (body_of detached_store 0) \<noteq> 0 \<and> world (body_of detached_store 0) = None \<and>
   Body_update exact detached_store 0 (1 / 60) =
     Throw TypeError (upd_body detached_store 0 (\<lambda>bd. bd\<lparr>lastPosition := position bd\<rparr>)) \<and>
   mass (body_of speeding_store 0) = 0 \<and>
   (\<exists>st'. Body_update exact speeding_store 0 (1 / 60) = Normal () st' \<and>
      world_of st' = world_of speeding_store \<and> calls st' = calls speeding_store \<and>
      body_of st' 2 = body_of speeding_store 2 \<and>
      body_of st' 0 = (body_of speeding_store 0)\<lparr>lastPosition := position (body_of speeding_store 0),
         velocity := velocity (body_of st' 0), position := position (body_of st' 0)\<rparr>)"
proof -
  have dm: "mass (body_of detached_store 0) \<noteq> 0" and dw: "world (body_of detached_store 0) = None"
    by (simp_all add: detached_body Body_defaults_def)
  from Body_update_effects[where rd = exact and st = detached_store and b = 0 and delta = "1 / 60"] dm dw
  have t: "Body_update exact detached_store 0 (1 / 60) =
     Throw TypeError (upd_body detached_store 0 (\<lambda>bd. bd\<lparr>lastPosition := position bd\<rparr>))"
    by blast
  have sm: "mass (body_of speeding_store 0) = 0" by (simp add: speeding_body Body_defaults_def)
  from Body_update_effects[where rd = exact and st = speeding_store and b = 0 and delta = "1 / 60"] sm obtain st' where
    r: "Body_update exact speeding_store 0 (1 / 60) = Normal () st'" and
    w: "world_of st' = world_of speeding_store" and c: "calls st' = calls speeding_store" and
    o: "\<forall>c. c \<noteq> 0 \<longrightarrow> body_of st' c = body_of speeding_store c" and
    b: "body_of st' 0 = (body_of speeding_store 0)\<lparr>lastPosition := position (body_of speeding_store 0),
         velocity := velocity (body_of st' 0), position := position (body_of st' 0)\<rparr>"
    by blast
  from o have o': "body_of st' 2 = body_of speeding_store 2" by simp
  from r w c o' b have "\<exists>st'. Body_update exact speeding_store 0 (1 / 60) = Normal () st' \<and>
      world_of st' = world_of speeding_store \<and> calls st' = calls speeding_store \<and>
      body_of st' 2 = body_of speeding_store 2 \<and>
      body_of st' 0 = (body_of speeding_store 0)\<lparr>lastPosition := position (body_of speeding_store 0),
         velocity := velocity (body_of st' 0), position := position (body_of st' 0)\<rparr>"
    by blast
  with dm dw t sm show ?thesis by blast
qed

lemma falling_body:
  "body_of falling_store 0 =
     Body_defaults\<lparr>mass := 1, world := Some 0, velocity := \<lparr>vec_x = 1000, vec_y = - 1000\<rparr>\<rparr>"
  by (simp add: falling_store_def Body_new_def)

theorem default_velocityLimit_witness:
  "(\<forall>v. P_velocityLimit v \<notin>
         set [P_mass 1, P_world (Some 0), P_velocity \<lparr>vec_x = 1000, vec_y = - 1000\<rparr>]) \<and>
   velocityLimit (Body_new [P_mass 1, P_world (Some 0), P_velocity \<lparr>vec_x = 1000, vec_y = - 1000\<rparr>])
     = \<lparr>vec_x = 400, vec_y = 400\<rparr> \<and>
   velocityLimit (body_of falling_store 0) =
     velocityLimit (Body_new [P_mass 1, P_world (Some 0), P_velocity \<lparr>vec_x = 1000, vec_y = - 1000\<rparr>]) \<and>
   Body_update exact falling_store 0 (1 / 60) =
     Normal () (final_store (Body_update exact falling_store 0 (1 / 60))) \<and>
   \<bar>vec_x (velocity (body_of (final_store (Body_update exact falling_store 0 (1 / 60))) 0))\<bar> \<le> 400 \<and>
   \<bar>vec_y (velocity (body_of (final_store (Body_update exact falling_store 0 (1 / 60))) 0))\<bar> \<le> 400 \<and>
   velocity (body_of (final_store (Body_update exact falling_store 0 (1 / 60))) 0)
     = \<lparr>vec_x = 400, vec_y = - 400\<rparr>"
proof -
  let ?ps = "[P_mass 1, P_world (Some 0), P_velocity \<lparr>vec_x = 1000, vec_y = - 1000\<rparr>]"
  let ?st' = "final_store (Body_update exact falling_store 0 (1 / 60))"
  have n: "\<forall>v. P_velocityLimit v \<notin> set ?ps" by simp
  have l: "velocityLimit (body_of falling_store 0) = velocityLimit (Body_new ?ps)"
    by (simp add: falling_store_def)
  have ok: "mass (body_of falling_store 0) = 0 \<or> world (body_of falling_store 0) \<noteq> None"
    by (simp add: falling_body)
  have r: "Body_update exact falling_store 0 (1 / 60) = Normal () ?st'"
    by (simp add: Body_update_normal[OF ok])
  from default_velocityLimit[OF n, where rd = exact and st = falling_store and b = 0
      and delta = "1 / 60" and st' = ?st'] l r
  have d: "velocityLimit (Body_new ?ps) = \<lparr>vec_x = 400, vec_y = 400\<rparr>"
    and bx: "\<bar>vec_x (velocity (body_of ?st' 0))\<bar> \<le> 400"
    and by': "\<bar>vec_y (velocity (body_of ?st' 0))\<bar> \<le> 400"
    by blast+
  have g: "gravity (world_of falling_store 0) = \<lparr>vec_x = 0, vec_y = 980\<rparr>"
    by (simp add: falling_store_def fresh_store_def World_new_def)
  have u: "spec_update_velocity exact falling_store 0 (1 / 60) = \<lparr>vec_x = 400, vec_y = - 400\<rparr>"
    by (simp add: spec_update_velocity_def Let_def spec_clamped_def spec_velocity_def
          Math_clamp_def falling_body Body_defaults_def Vector_new_def g)
  have v: "velocity (body_of ?st' 0) = \<lparr>vec_x = 400, vec_y = - 400\<rparr>"
    unfolding Body_update_normal[OF ok] by (simp add: upd_body_simps u)
  show ?thesis by (intro conjI) (fact n d l r bx by' v)+
qed

end
